theory Spec2Isabelle
  imports Main "HOL-Library.Word"
begin

unbundle bit_operations_syntax

section \<open>Go runtime values: panics, errors, strings, the random source\<close>

text \<open>
  A Go \<open>error\<close> value is either the sentinel \<open>io.EOF\<close> or a message built by
  \<open>fmt.Errorf\<close> / \<open>errors.New\<close>. A message never compares equal to the sentinel, whatever
  its text.
\<close>

datatype error = EOF | Errorf string

text \<open>
  Run-time panics of the simulator: an array or slice index out of range, a nil pointer or nil
  function value being used, a send on a full channel with no other goroutine (the runtime's
  deadlock abort), \<open>panic(err)\<close> and \<open>panic("...")\<close>.
\<close>

datatype panic = IndexOutOfRange | NilDereference | Deadlock | PanicError error | PanicMsg string

definition bindP :: "panic + 'a \<Rightarrow> ('a \<Rightarrow> panic + 'b) \<Rightarrow> panic + 'b" where
  "bindP m f = (case m of Inl e \<Rightarrow> Inl e | Inr x \<Rightarrow> f x)"

lemma bindP_Inl [simp]: "bindP (Inl e) f = Inl e"
  by (simp add: bindP_def)

lemma bindP_Inr [simp]: "bindP (Inr x) f = f x"
  by (simp add: bindP_def)

text \<open>\<open>strings.HasPrefix\<close> and \<open>strings.HasSuffix\<close>, as the Go library defines them.\<close>

definition HasPrefix :: "string \<Rightarrow> string \<Rightarrow> bool" where
  "HasPrefix s p = (length s \<ge> length p \<and> take (length p) s = p)"

definition HasSuffix :: "string \<Rightarrow> string \<Rightarrow> bool" where
  "HasSuffix s p = (length s \<ge> length p \<and> drop (length s - length p) s = p)"

text \<open>
  \<open>binary.LittleEndian.PutUint64\<close> and \<open>binary.LittleEndian.Uint64\<close> on an 8-byte buffer.
\<close>

definition PutUint64 :: "64 word \<Rightarrow> 8 word list" where
  "PutUint64 v = map (\<lambda>i. ucast (drop_bit (8 * i) v)) [0..<8]"

definition Uint64 :: "8 word list \<Rightarrow> 64 word" where
  "Uint64 d = foldr (\<lambda>i acc. acc OR push_bit (8 * i) (ucast (d ! i))) [0..<8] 0"

text \<open>
  \<open>bits.Add64\<close> and \<open>bits.Sub64\<close> of \<open>math/bits\<close>: the wrapped sum (difference) and the
  carry (borrow) out of bit 63.
\<close>

definition Add64 :: "64 word \<Rightarrow> 64 word \<Rightarrow> 64 word \<Rightarrow> 64 word \<times> 64 word" where
  "Add64 x y carry =
     (let sum = x + y + carry
      in (sum, drop_bit 63 ((x AND y) OR ((x OR y) AND NOT sum))))"

definition Sub64 :: "64 word \<Rightarrow> 64 word \<Rightarrow> 64 word \<Rightarrow> 64 word \<times> 64 word" where
  "Sub64 x y borrow =
     (let diff = x - y - borrow
      in (diff, drop_bit 63 ((NOT x AND y) OR (NOT (x XOR y) AND diff))))"

text \<open>
  The process-wide generator \<open>random\<close> (seeded from the clock) is an unknown infinite supply
  of bytes; a draw takes bytes from its front. Every theorem below holds for every supply.
\<close>

type_synonym rand = "nat \<Rightarrow> 8 word"

definition rand_Read :: "rand \<Rightarrow> nat \<Rightarrow> 8 word list \<times> rand" where
  "rand_Read g n = (map g [0..<n], \<lambda>i. g (i + n))"

definition rand_Uint64 :: "rand \<Rightarrow> 64 word \<times> rand" where
  "rand_Uint64 g = (Uint64 (map g [0..<8]), \<lambda>i. g (i + 8))"

section \<open>Sparse paged memory\<close>

definition BlockSize :: nat where
  "BlockSize = 2 ^ 10"

record memoryBlock =
  off :: "64 word"
  data :: "8 word list"

record Memory =
  blocks :: "64 word \<rightharpoonup> memoryBlock"

text \<open>
  \<open>getOrMakeBlock\<close> returns a pointer to the block; the model returns the block's key in the
  map (the pointer's identity) with the block, and the caller stores the block back under that
  key where the source writes through the pointer.
\<close>

definition getOrMakeBlock :: "Memory \<Rightarrow> rand \<Rightarrow> 64 word \<Rightarrow> (64 word \<times> memoryBlock) \<times> Memory \<times> rand" where
  "getOrMakeBlock m g a =
     (let k = a div of_nat BlockSize
      in case blocks m k of
           Some b \<Rightarrow> ((k, b), m, g)
         | None \<Rightarrow>
             (let (d, g') = rand_Read g BlockSize;
                  b = \<lparr>off = k * of_nat BlockSize, data = d\<rparr>
              in ((k, b), m\<lparr>blocks := (blocks m)(k \<mapsto> b)\<rparr>, g')))"

text \<open>
  One iteration of the loop of \<open>Memory.Write\<close>: the bytes \<open>b[n:]\<close> are copied into
  \<open>bk.data[off:end]\<close>; \<open>copy\<close> moves as many bytes as the shorter of the two slices has.
  The result is the number of bytes copied with the new memory and generator.
  The counter \<open>n\<close> never exceeds \<open>len(b)\<close>, so it is a natural number; the address
  \<open>addr + n\<close> is a 64-bit sum and wraps.
\<close>

definition Write_iter :: "Memory \<Rightarrow> rand \<Rightarrow> 8 word list \<Rightarrow> 64 word \<Rightarrow> nat \<Rightarrow> nat \<times> Memory \<times> rand" where
  "Write_iter m g b a n =
     (let total = length b;
          ((k, bk), m1, g1) = getOrMakeBlock m g (a + of_nat n);
          off = unat ((a + of_nat n) mod of_nat BlockSize);
          end0 = off + total - n;
          end1 = (if end0 > BlockSize then BlockSize else end0);
          c = min (end1 - off) (length (drop n b));
          bk' = bk\<lparr>data := take off (data bk) @ take c (drop n b) @ drop (off + c) (data bk)\<rparr>
      in (c, m1\<lparr>blocks := (blocks m1)(k \<mapsto> bk')\<rparr>, g1))"

text \<open>
  One iteration of the loop of \<open>Memory.Read\<close>: \<open>bk.data[off:end]\<close> is copied into
  \<open>b[n:]\<close>.
\<close>

definition Read_iter :: "Memory \<Rightarrow> rand \<Rightarrow> 8 word list \<Rightarrow> 64 word \<Rightarrow> nat \<Rightarrow> nat \<times> 8 word list \<times> Memory \<times> rand" where
  "Read_iter m g b a n =
     (let total = length b;
          ((k, bk), m1, g1) = getOrMakeBlock m g (a + of_nat n);
          off = unat ((a + of_nat n) mod of_nat BlockSize);
          end0 = off + total - n;
          end1 = (if end0 > BlockSize then BlockSize else end0);
          c = min (length (drop n b)) (end1 - off)
      in (c, take n b @ take c (drop off (data bk)) @ drop (n + c) b, m1, g1))"

lemma unat_mod_BlockSize: "unat ((w :: 64 word) mod of_nat BlockSize) < BlockSize"
  by (simp add: BlockSize_def unat_mod)

lemma Write_iter_pos:
  assumes "n < length b" and "Write_iter m g b a n = (c, m', g')"
  shows "0 < c"
proof -
  have "unat ((a + of_nat n) mod of_nat BlockSize) < BlockSize"
    by (rule unat_mod_BlockSize)
  with assms show ?thesis
    by (auto simp: Write_iter_def Let_def split: prod.splits if_splits)
qed

lemma Write_iter_decr:
  "n < length b \<Longrightarrow> (c, m', g') = Write_iter m g b a n \<Longrightarrow> length b - (n + c) < length b - n"
  using Write_iter_pos [of n b m g a c m' g'] by simp

function Write_loop :: "Memory \<Rightarrow> rand \<Rightarrow> 8 word list \<Rightarrow> 64 word \<Rightarrow> nat \<Rightarrow> nat \<times> Memory \<times> rand" where
  "Write_loop m g b a n =
     (if n < length b
      then (case Write_iter m g b a n of (c, m', g') \<Rightarrow> Write_loop m' g' b a (n + c))
      else (n, m, g))"
  by pat_completeness auto
termination
  by (relation "measure (\<lambda>(m, g, b, a, n). length b - n)")
     (auto intro: Write_iter_decr)

lemma Read_iter_decr:
  assumes "n < length b" and "(c, b', m', g') = Read_iter m g b a n"
  shows "length b' - (n + c) < length b - n"
proof -
  have "unat ((a + of_nat n) mod of_nat BlockSize) < BlockSize"
    by (rule unat_mod_BlockSize)
  with assms show ?thesis
    by (auto simp: Read_iter_def Let_def min_def split: prod.splits if_splits)
qed

function Read_loop :: "Memory \<Rightarrow> rand \<Rightarrow> 8 word list \<Rightarrow> 64 word \<Rightarrow> nat \<Rightarrow> nat \<times> 8 word list \<times> Memory \<times> rand" where
  "Read_loop m g b a n =
     (if n < length b
      then (case Read_iter m g b a n of (c, b', m', g') \<Rightarrow> Read_loop m' g' b' a (n + c))
      else (n, b, m, g))"
  by pat_completeness auto
termination
  by (relation "measure (\<lambda>(m, g, b, a, n). length b - n)")
     (auto intro: Read_iter_decr)

text \<open>
  \<open>Memory.Read\<close> and \<open>Memory.Write\<close>: the loop from \<open>n = 0\<close>; the error returned is
  always nil.
\<close>

definition Write :: "Memory \<Rightarrow> rand \<Rightarrow> 8 word list \<Rightarrow> 64 word \<Rightarrow> (nat \<times> error option) \<times> Memory \<times> rand" where
  "Write m g b a = (case Write_loop m g b a 0 of (n, m', g') \<Rightarrow> ((n, None), m', g'))"

definition Read :: "Memory \<Rightarrow> rand \<Rightarrow> 8 word list \<Rightarrow> 64 word \<Rightarrow> (nat \<times> error option) \<times> 8 word list \<times> Memory \<times> rand" where
  "Read m g b a = (case Read_loop m g b a 0 of (n, b', m', g') \<Rightarrow> ((n, None), b', m', g'))"

text \<open>
  The type \<open>[BlockSize]byte\<close> of a block's data: every block of a memory has exactly
  \<open>BlockSize\<close> bytes.
\<close>

definition wf_Memory :: "Memory \<Rightarrow> bool" where
  "wf_Memory m = (\<forall>k bk. blocks m k = Some bk \<longrightarrow> length (data bk) = BlockSize)"

text \<open>
  The byte a memory holds at an address, if the block of the address has been allocated.
\<close>

definition peek :: "Memory \<Rightarrow> 64 word \<Rightarrow> 8 word option" where
  "peek m a =
     (case blocks m (a div of_nat BlockSize) of
        None \<Rightarrow> None
      | Some bk \<Rightarrow> Some (data bk ! unat (a mod of_nat BlockSize)))"

section \<open>Registers, operands, instructions\<close>

type_synonym Register = "8 word"

definition X0 :: Register where "X0 = 0"
definition X16 :: Register where "X16 = 16"
definition X17 :: Register where "X17 = 17"
definition X28 :: Register where "X28 = 28"
definition X29 :: Register where "X29 = 29"
definition X30 :: Register where "X30 = 30"
definition XZR :: Register where "XZR = 31"
definition S0 :: Register where "S0 = 32"
definition D0 :: Register where "D0 = 64"
definition IP0 :: Register where "IP0 = X16"
definition IP1 :: Register where "IP1 = X17"
definition SP :: Register where "SP = X28"
definition FP :: Register where "FP = X29"
definition LR :: Register where "LR = X30"

record Addr =
  AReg :: Register
  AOffset :: "64 word"
  ALabel :: string

record Instruction =
  Op :: string
  To :: Addr
  From :: Addr
  Reg :: Register
  Imm :: "64 word"
  Label :: string

text \<open>The zero values of the two structs.\<close>

definition Addr0 :: Addr where
  "Addr0 = \<lparr>AReg = 0, AOffset = 0, ALabel = ''''\<rparr>"

definition Instruction0 :: Instruction where
  "Instruction0 = \<lparr>Op = '''', To = Addr0, From = Addr0, Reg = 0, Imm = 0, Label = ''''\<rparr>"

section \<open>The CPU\<close>

definition flagN :: "8 word" where "flagN = push_bit 0 1"
definition flagZ :: "8 word" where "flagZ = push_bit 1 1"
definition flagV :: "8 word" where "flagV = push_bit 2 1"
definition flagC :: "8 word" where "flagC = push_bit 3 1"

text \<open>
  \<open>Registers\<close> is the array \<open>[32]uint64\<close>: a list of 32 words, and an index of 32 or more
  panics. \<open>Memory\<close> is a pointer, nil until \<open>Load\<close>. \<open>labels\<close> is a Go map: a missing key
  reads as 0.
\<close>

record CPU =
  PC :: "64 word"
  Registers :: "64 word list"
  Flags :: "8 word"
  Err :: "error option"
  Memory :: "Memory option"
  labels :: "string \<rightharpoonup> 64 word"
  prog :: "Instruction list"

definition reg_read :: "CPU \<Rightarrow> Register \<Rightarrow> panic + 64 word" where
  "reg_read cpu r = (if unat r < 32 then Inr (Registers cpu ! unat r) else Inl IndexOutOfRange)"

definition reg_write :: "CPU \<Rightarrow> Register \<Rightarrow> 64 word \<Rightarrow> panic + CPU" where
  "reg_write cpu r v =
     (if unat r < 32 then Inr (cpu\<lparr>Registers := (Registers cpu)[unat r := v]\<rparr>)
      else Inl IndexOutOfRange)"

definition valuesFor :: "CPU \<Rightarrow> Instruction \<Rightarrow> panic + (Register \<times> 64 word \<times> 64 word)" where
  "valuesFor cpu as =
     (if HasSuffix (Op as) ''I''
      then bindP (reg_read cpu (AReg (From as))) (\<lambda>a. Inr (AReg (To as), a, Imm as))
      else bindP (reg_read cpu (AReg (From as))) (\<lambda>a.
           bindP (reg_read cpu (Reg as)) (\<lambda>b. Inr (AReg (To as), a, b))))"

text \<open>
  \<open>setFlags\<close>: the switch with its \<open>fallthrough\<close>s. The second case tests \<open>v < 0\<close> on an
  unsigned value.
\<close>

definition setFlags :: "CPU \<Rightarrow> Instruction \<Rightarrow> 64 word \<Rightarrow> panic + CPU" where
  "setFlags cpu as carry =
     (if \<not> HasSuffix (Op as) ''S'' then Inr cpu
      else bindP (reg_read cpu (AReg (To as))) (\<lambda>v.
        if v = 0 then Inr (cpu\<lparr>Flags := ((Flags cpu OR flagZ) OR flagN) OR flagC\<rparr>)
        else if v < 0 then Inr (cpu\<lparr>Flags := (Flags cpu OR flagN) OR flagC\<rparr>)
        else if carry = 1 then Inr (cpu\<lparr>Flags := Flags cpu OR flagC\<rparr>)
        else Inr (cpu\<lparr>Flags := 0\<rparr>)))"

definition arith :: "CPU \<Rightarrow> Instruction \<Rightarrow> panic + (bool \<times> CPU)" where
  "arith cpu as =
     bindP (valuesFor cpu as) (\<lambda>(dst, x, y).
       if HasPrefix (Op as) ''ADD'' then
         (case Add64 x y 0 of (r, carry) \<Rightarrow>
            bindP (reg_write cpu dst r) (\<lambda>c1.
            bindP (setFlags c1 as carry) (\<lambda>c2. Inr (True, c2))))
       else if HasPrefix (Op as) ''SUB'' then
         (case Sub64 x y 0 of (r, carry) \<Rightarrow>
            bindP (reg_write cpu dst r) (\<lambda>c1.
            bindP (setFlags c1 as carry) (\<lambda>c2. Inr (True, c2))))
       else if HasPrefix (Op as) ''EOR'' then
         bindP (reg_write cpu dst (x XOR y)) (\<lambda>c1.
         bindP (setFlags c1 as 0) (\<lambda>c2. Inr (True, c2)))
       else if HasPrefix (Op as) ''ORR'' then
         bindP (reg_write cpu dst (x OR y)) (\<lambda>c1.
         bindP (setFlags c1 as 0) (\<lambda>c2. Inr (True, c2)))
       else if HasPrefix (Op as) ''AND'' then
         bindP (reg_write cpu dst (x AND y)) (\<lambda>c1.
         bindP (setFlags c1 as 0) (\<lambda>c2. Inr (True, c2)))
       else if Op as = ''LSL'' then
         bindP (reg_write cpu dst (push_bit (unat y) x)) (\<lambda>c1. Inr (True, c1))
       else if Op as = ''LSR'' then
         bindP (reg_write cpu dst (drop_bit (unat y) x)) (\<lambda>c1. Inr (True, c1))
       else if Op as = ''MUL'' then
         bindP (reg_write cpu dst (x * y)) (\<lambda>c1. Inr (True, c1))
       else Inr (False, cpu))"

definition shouldBranch :: "CPU \<Rightarrow> string \<Rightarrow> bool \<times> error option" where
  "shouldBranch cpu cond =
     (let val = (\<lambda>f. Flags cpu AND f) in
      if cond = ''EQ'' then (val flagZ = 1, None)
      else if cond = ''NE'' then (val flagZ = 0, None)
      else if cond = ''LT'' then (val flagN \<noteq> val flagV, None)
      else if cond = ''LE'' then (\<not> (val flagZ = 0 \<and> val flagN = val flagV), None)
      else if cond = ''GT'' then (val flagZ = 0 \<and> val flagN = val flagV, None)
      else if cond = ''GE'' then (val flagN = val flagV, None)
      else if cond = ''LO'' then (val flagC = 0, None)
      else if cond = ''LS'' then (\<not> (val flagZ = 0 \<and> val flagC = 1), None)
      else if cond = ''HI'' then (val flagZ = 0 \<and> val flagC = 1, None)
      else if cond = ''HS'' then (val flagC = 1, None)
      else (False, Some (Errorf ''unknown comparison'')))"

text \<open>Reading a Go map of \<open>uint64\<close>: a missing key reads as the zero value.\<close>

definition map_index :: "(string \<rightharpoonup> 64 word) \<Rightarrow> string \<Rightarrow> 64 word" where
  "map_index m k = (case m k of Some i \<Rightarrow> i | None \<Rightarrow> 0)"

definition addr :: "CPU \<Rightarrow> Addr \<Rightarrow> 64 word" where
  "addr cpu to =
     (if ALabel to \<noteq> [] then map_index (labels cpu) (ALabel to)
      else PC cpu + AOffset to)"

text \<open>
  \<open>branch\<close>: the case for \<open>B\<close> sets the PC and leaves the switch without a \<open>return true\<close>, so it
  reaches the final \<open>return false\<close>.
\<close>

definition branch :: "CPU \<Rightarrow> Instruction \<Rightarrow> panic + (bool \<times> CPU)" where
  "branch cpu as =
     (if Op as = ''B'' then Inr (False, cpu\<lparr>PC := addr cpu (To as)\<rparr>)
      else if Op as = ''BR'' then
        bindP (reg_read cpu (AReg (To as))) (\<lambda>v. Inr (True, cpu\<lparr>PC := v\<rparr>))
      else if Op as = ''BL'' then
        bindP (reg_write cpu LR (PC cpu)) (\<lambda>c1. Inr (True, c1\<lparr>PC := addr c1 (To as)\<rparr>))
      else if Op as = ''CBZ'' then
        bindP (reg_read cpu (AReg (To as))) (\<lambda>v.
          if v \<noteq> 0 then Inr (True, cpu\<lparr>PC := PC cpu + 1\<rparr>)
          else Inr (True, cpu\<lparr>PC := addr cpu (From as)\<rparr>))
      else if Op as = ''CBNZ'' then
        bindP (reg_read cpu (AReg (To as))) (\<lambda>v.
          if v = 0 then Inr (True, cpu\<lparr>PC := PC cpu + 1\<rparr>)
          else Inr (True, cpu\<lparr>PC := addr cpu (From as)\<rparr>))
      else if HasPrefix (Op as) ''B.'' then
        (case shouldBranch cpu (drop (length ''B.'') (Op as)) of
           (ok, Some err) \<Rightarrow> Inl (PanicError err)
         | (ok, None) \<Rightarrow>
             if \<not> ok then Inr (True, cpu\<lparr>PC := PC cpu + 1\<rparr>)
             else Inr (True, cpu\<lparr>PC := addr cpu (To as)\<rparr>))
      else Inr (False, cpu))"

definition memory :: "CPU \<Rightarrow> rand \<Rightarrow> Instruction \<Rightarrow> panic + (bool \<times> CPU \<times> rand)" where
  "memory cpu g as =
     (if Op as = ''STUR'' then
        bindP (reg_read cpu (AReg (To as))) (\<lambda>v.
        bindP (reg_read cpu (AReg (From as))) (\<lambda>base.
          case Memory cpu of
            None \<Rightarrow> Inl NilDereference
          | Some m \<Rightarrow>
              (case Write m g (PutUint64 v) (base + AOffset (From as)) of
                 (r, m', g') \<Rightarrow> Inr (True, cpu\<lparr>Memory := Some m'\<rparr>, g'))))
      else if Op as = ''LDUR'' then
        bindP (reg_read cpu (AReg (From as))) (\<lambda>base.
          case Memory cpu of
            None \<Rightarrow> Inl NilDereference
          | Some m \<Rightarrow>
              (case Read m g (replicate 8 0) (base + AOffset (From as)) of
                 (r, d, m', g') \<Rightarrow>
                   bindP (reg_write (cpu\<lparr>Memory := Some m'\<rparr>) (AReg (To as)) (Uint64 d))
                     (\<lambda>c1. Inr (True, c1, g'))))
      else Inr (False, cpu, g))"

text \<open>
  \<open>Step\<close>: \<open>prog[PC]\<close> is indexed before anything else; the three handlers are tried in
  order, each seeing what the one before left; the result is \<open>PC < len(prog)\<close>.
\<close>

definition in_prog :: "CPU \<Rightarrow> bool" where
  "in_prog cpu = (unat (PC cpu) < length (prog cpu))"

definition Step :: "CPU \<Rightarrow> rand \<Rightarrow> panic + (bool \<times> CPU \<times> rand)" where
  "Step cpu g =
     (if length (prog cpu) = 0 then Inr (False, cpu, g)
      else if \<not> unat (PC cpu) < length (prog cpu) then Inl IndexOutOfRange
      else
        (let as = prog cpu ! unat (PC cpu) in
         bindP (arith cpu as) (\<lambda>(done1, c1).
           if done1 then (let c = c1\<lparr>PC := PC c1 + 1\<rparr> in Inr (in_prog c, c, g))
           else bindP (branch c1 as) (\<lambda>(done2, c2).
             if done2 then Inr (in_prog c2, c2, g)
             else bindP (memory c2 g as) (\<lambda>(done3, c3, g3).
               if done3 then (let c = c3\<lparr>PC := PC c3 + 1\<rparr> in Inr (in_prog c, c, g3))
               else Inr (in_prog c3, c3, g3))))))"

text \<open>
  \<open>Load\<close>: a fresh memory, one draw for each of the 32 registers in index order, the label
  map built in program order (a later line with the same label overwrites an earlier one).
  PC, flags and Err are not touched.
\<close>

function seed_registers :: "nat \<Rightarrow> 64 word list \<Rightarrow> rand \<Rightarrow> 64 word list \<times> rand" where
  "seed_registers i rs g =
     (if i < length rs
      then (case rand_Uint64 g of (v, g') \<Rightarrow> seed_registers (Suc i) (rs[i := v]) g')
      else (rs, g))"
  by pat_completeness auto
termination
  by (relation "measure (\<lambda>(i, rs, g). length rs - i)") auto

fun scan_labels :: "nat \<Rightarrow> Instruction list \<Rightarrow> (string \<rightharpoonup> 64 word) \<Rightarrow> (string \<rightharpoonup> 64 word)" where
  "scan_labels i [] ls = ls"
| "scan_labels i (as # rest) ls =
     scan_labels (Suc i) rest (if Label as \<noteq> '''' then ls(Label as \<mapsto> of_nat i) else ls)"

definition Load :: "CPU \<Rightarrow> rand \<Rightarrow> Instruction list \<Rightarrow> error option \<times> CPU \<times> rand" where
  "Load cpu g p =
     (case seed_registers 0 (Registers cpu) g of
        (rs, g') \<Rightarrow>
          (None,
           cpu\<lparr>Memory := Some \<lparr>blocks = Map.empty\<rparr>, Registers := rs,
               labels := scan_labels 0 p Map.empty, prog := p\<rparr>,
           g'))"

text \<open>The zero value \<open>&CPU{}\<close> the driver starts from.\<close>

definition CPU0 :: CPU where
  "CPU0 = \<lparr>PC = 0, Registers = replicate 32 0, Flags = 0, Err = None, Memory = None,
           labels = Map.empty, prog = []\<rparr>"

text \<open>
  The driver's loop \<open>for cpu.Step() { }\<close>. It need not end: not returning is the value
  \<open>None\<close>.
\<close>

partial_function (option) run :: "CPU \<Rightarrow> rand \<Rightarrow> (panic + CPU \<times> rand) option" where
  "run cpu g =
     (case Step cpu g of
        Inl e \<Rightarrow> Some (Inl e)
      | Inr (again, cpu', g') \<Rightarrow> if again then run cpu' g' else Some (Inr (cpu', g')))"

declare run.simps [code]

section \<open>The lexer\<close>

text \<open>
  The input is a string of ASCII characters: every character is one rune of width 1, and the
  end of input is the rune \<open>eof\<close>, here \<open>None\<close>. \<open>unicode.IsSpace\<close>, \<open>unicode.IsLetter\<close> and
  \<open>unicode.IsDigit\<close> are given on the ASCII range.
\<close>

definition IsSpace :: "char \<Rightarrow> bool" where
  "IsSpace r = (let n = (of_char r :: nat) in (9 \<le> n \<and> n \<le> 13) \<or> n = 32)"

definition IsLetter :: "char \<Rightarrow> bool" where
  "IsLetter r = (let n = (of_char r :: nat) in (65 \<le> n \<and> n \<le> 90) \<or> (97 \<le> n \<and> n \<le> 122))"

definition IsDigit :: "char \<Rightarrow> bool" where
  "IsDigit r = (let n = (of_char r :: nat) in 48 \<le> n \<and> n \<le> 57)"

datatype itemType =
  itemEOF | itemError | itemName | itemInteger | itemColon | itemComma | itemLbrack | itemRbrack

record item =
  ityp :: itemType
  itext :: string

text \<open>
  The state functions \<open>lexInput\<close>, \<open>lexName\<close> and \<open>lexInteger\<close> by name; the nil state is
  \<open>None\<close>. \<open>items\<close> is the channel of capacity 2, oldest item first.
\<close>

datatype stateFn = LexInput | LexName | LexInteger

record lexer =
  input :: string
  start :: nat
  pos :: nat
  width :: nat
  state :: "stateFn option"
  items :: "item list"

definition lex :: "string \<Rightarrow> lexer" where
  "lex inp = \<lparr>input = inp, start = 0, pos = 0, width = 0, state = Some LexInput, items = []\<rparr>"

definition next_rune :: "lexer \<Rightarrow> char option \<times> lexer" where
  "next_rune l =
     (if pos l \<ge> length (input l) then (None, l\<lparr>width := 0\<rparr>)
      else (Some (input l ! pos l), l\<lparr>width := 1, pos := pos l + 1\<rparr>))"

definition backup :: "lexer \<Rightarrow> lexer" where
  "backup l = l\<lparr>pos := pos l - width l\<rparr>"

definition ignore :: "lexer \<Rightarrow> lexer" where
  "ignore l = l\<lparr>start := pos l\<rparr>"

text \<open>
  A send on the channel: with two items already buffered and nobody receiving, the only
  goroutine blocks for ever and the runtime aborts.
\<close>

definition send :: "lexer \<Rightarrow> item \<Rightarrow> panic + lexer" where
  "send l i = (if length (items l) \<ge> 2 then Inl Deadlock else Inr (l\<lparr>items := items l @ [i]\<rparr>))"

definition emit :: "lexer \<Rightarrow> itemType \<Rightarrow> panic + lexer" where
  "emit l t =
     bindP (send l \<lparr>ityp = t, itext = take (pos l - start l) (drop (start l) (input l))\<rparr>)
       (\<lambda>l1. Inr (l1\<lparr>start := pos l1\<rparr>))"

definition errorf :: "lexer \<Rightarrow> string \<Rightarrow> panic + (stateFn option \<times> lexer)" where
  "errorf l msg = bindP (send l \<lparr>ityp = itemError, itext = msg\<rparr>) (\<lambda>l1. Inr (None, l1))"

lemma next_rune_Some:
  "next_rune l = (Some r, l1) \<Longrightarrow> pos l < length (input l) \<and> pos l1 = Suc (pos l) \<and> input l1 = input l"
  by (auto simp: next_rune_def split: if_splits)

lemma next_rune_any:
  "next_rune l = (r, l1) \<Longrightarrow> pos l \<le> pos l1 \<and> input l1 = input l"
  by (auto simp: next_rune_def split: if_splits)

text \<open>The loop of \<open>ignoreLine\<close>: runes are read until a newline or the end of input.\<close>

function skip_line :: "lexer \<Rightarrow> char option \<times> lexer" where
  "skip_line l =
     (case next_rune l of
        (r, l1) \<Rightarrow> if \<not> (r = Some (CHR 0x0A) \<or> r = None) then skip_line l1 else (r, l1))"
  by pat_completeness auto
termination
  by (relation "measure (\<lambda>l. length (input l) - pos l)")
     (auto dest!: next_rune_Some [OF sym])

definition ignoreLine :: "lexer \<Rightarrow> lexer" where
  "ignoreLine l =
     (case skip_line l of
        (r, l1) \<Rightarrow> (let l2 = (if r = None then backup l1 else l1) in l2\<lparr>start := pos l2\<rparr>))"

definition accept :: "lexer \<Rightarrow> string \<Rightarrow> bool \<times> lexer" where
  "accept l valid =
     (case next_rune l of
        (Some r, l1) \<Rightarrow> if r \<in> set valid then (True, l1) else (False, backup l1)
      | (None, l1) \<Rightarrow> (False, backup l1))"

text \<open>The loop of \<open>acceptRange\<close>: runes are read while one of the predicates holds.\<close>

function accept_while :: "lexer \<Rightarrow> (char \<Rightarrow> bool) list \<Rightarrow> lexer" where
  "accept_while l fns =
     (case next_rune l of
        (Some r, l1) \<Rightarrow> if list_ex (\<lambda>fn. fn r) fns then accept_while l1 fns else l1
      | (None, l1) \<Rightarrow> l1)"
  by pat_completeness auto
termination
  by (relation "measure (\<lambda>(l, fns). length (input l) - pos l)")
     (auto dest!: next_rune_Some [OF sym])

definition acceptRange :: "lexer \<Rightarrow> (char \<Rightarrow> bool) list \<Rightarrow> lexer" where
  "acceptRange l fns = backup (accept_while l fns)"

definition lexName :: "lexer \<Rightarrow> panic + (stateFn option \<times> lexer)" where
  "lexName l =
     (let l1 = acceptRange l [IsLetter, IsDigit];
          l2 = snd (accept l1 ''.'');
          l3 = acceptRange l2 [IsLetter, IsDigit]
      in bindP (emit l3 itemName) (\<lambda>l4. Inr (Some LexInput, l4)))"

definition lexInteger :: "lexer \<Rightarrow> panic + (stateFn option \<times> lexer)" where
  "lexInteger l =
     (let l1 = snd (accept l ''#'');
          l2 = acceptRange l1 [IsDigit]
      in bindP (emit l2 itemInteger) (\<lambda>l3. Inr (Some LexInput, l3)))"

definition quoted :: "char \<Rightarrow> string" where
  "quoted r = [CHR 0x27, r, CHR 0x27]"

lemma skip_line_spec:
  "skip_line l = (r, l1) \<Longrightarrow> pos l \<le> pos l1 \<and> input l1 = input l \<and> (r = None \<longrightarrow> width l1 = 0)"
proof (induction l arbitrary: r l1 rule: skip_line.induct)
  case (1 l)
  obtain r0 l0 where n: "next_rune l = (r0, l0)" by (metis prod.exhaust)
  have eq: "skip_line l = (if \<not> (r0 = Some (CHR 0x0A) \<or> r0 = None) then skip_line l0 else (r0, l0))"
    by (subst skip_line.simps) (simp add: n del: skip_line.simps)
  show ?case
  proof (cases "\<not> (r0 = Some (CHR 0x0A) \<or> r0 = None)")
    case True
    from "1.prems" True have "skip_line l0 = (r, l1)"
      unfolding eq by (simp del: skip_line.simps)
    from "1.IH" [OF n [symmetric] True this] next_rune_any [OF n] show ?thesis by simp
  next
    case False
    from "1.prems" False have "(r, l1) = (r0, l0)"
      unfolding eq by (auto simp del: skip_line.simps)
    with next_rune_any [OF n] n show ?thesis
      by (auto simp: next_rune_def split: if_splits)
  qed
qed

lemma ignoreLine_ge: "pos l \<le> pos (ignoreLine l) \<and> input (ignoreLine l) = input l"
proof -
  obtain r l1 where s: "skip_line l = (r, l1)" by (metis prod.exhaust)
  from skip_line_spec [OF s] show ?thesis
    unfolding ignoreLine_def s by (auto simp: Let_def backup_def)
qed

lemma send_pos: "send l i = Inr l1 \<Longrightarrow> pos l1 = pos l \<and> input l1 = input l"
  by (auto simp: send_def split: if_splits)

lemma emit_pos: "emit l t = Inr l1 \<Longrightarrow> pos l1 = pos l \<and> input l1 = input l"
  by (auto simp: emit_def bindP_def dest!: send_pos split: sum.splits)

lemma lexInput_decr:
  assumes "(Some r, l1) = next_rune l"
  shows "length (input (ignore l1)) - pos (ignore l1) < length (input l) - pos l"
    and "length (input (ignoreLine l1)) - pos (ignoreLine l1) < length (input l) - pos l"
    and "emit l1 t = Inr l2 \<Longrightarrow> length (input l2) - pos l2 < length (input l) - pos l"
    and "(nr, l3) = next_rune l1 \<Longrightarrow>
           length (input (ignoreLine l3)) - pos (ignoreLine l3) < length (input l) - pos l"
proof -
  note n = next_rune_Some [OF assms [symmetric]]
  from n show "length (input (ignore l1)) - pos (ignore l1) < length (input l) - pos l"
    by (auto simp: ignore_def)
  from n ignoreLine_ge [of l1]
  show "length (input (ignoreLine l1)) - pos (ignoreLine l1) < length (input l) - pos l"
    by auto
  show "length (input l2) - pos l2 < length (input l) - pos l" if "emit l1 t = Inr l2"
    using emit_pos [OF that] n by auto
  show "length (input (ignoreLine l3)) - pos (ignoreLine l3) < length (input l) - pos l"
    if "(nr, l3) = next_rune l1"
    using next_rune_any [OF that [symmetric]] ignoreLine_ge [of l3] n by auto
qed

text \<open>
  \<open>lexInput\<close>: one call runs until it hands over to \<open>lexName\<close> or \<open>lexInteger\<close>, or ends the
  scan with \<open>EOF\<close> or an error; punctuation and comments are handled inside its loop.
\<close>

function lexInput :: "lexer \<Rightarrow> panic + (stateFn option \<times> lexer)" where
  "lexInput l =
     (case next_rune l of
        (None, l1) \<Rightarrow> bindP (emit l1 itemEOF) (\<lambda>l2. Inr (None, l2))
      | (Some r, l1) \<Rightarrow>
          if IsSpace r then lexInput (ignore l1)
          else if r = CHR 0x0A then lexInput (ignore l1)
          else if r = CHR '';'' then lexInput (ignoreLine l1)
          else if r = CHR '':'' then
            (case emit l1 itemColon of Inl e \<Rightarrow> Inl e | Inr l2 \<Rightarrow> lexInput l2)
          else if r = CHR '','' then
            (case emit l1 itemComma of Inl e \<Rightarrow> Inl e | Inr l2 \<Rightarrow> lexInput l2)
          else if r = CHR ''['' then
            (case emit l1 itemLbrack of Inl e \<Rightarrow> Inl e | Inr l2 \<Rightarrow> lexInput l2)
          else if r = CHR '']'' then
            (case emit l1 itemRbrack of Inl e \<Rightarrow> Inl e | Inr l2 \<Rightarrow> lexInput l2)
          else if r = CHR ''/'' then
            (case next_rune l1 of
               (nr, l2) \<Rightarrow>
                 if nr = Some (CHR ''/'') then lexInput (ignoreLine l2)
                 else errorf l2 (''unexpected '' @ quoted r))
          else if r = CHR ''#'' then
            (case next_rune l1 of
               (nr, l2) \<Rightarrow>
                 if (case nr of Some d \<Rightarrow> IsDigit d | None \<Rightarrow> False)
                 then Inr (Some LexInteger, backup (backup l2))
                 else errorf l2 ''missing digit'')
          else if IsLetter r then Inr (Some LexName, backup l1)
          else if IsDigit r then Inr (Some LexInteger, backup l1)
          else errorf l1 (''unexpected '' @ quoted r))"
  by pat_completeness auto
termination
  by (relation "measure (\<lambda>l. length (input l) - pos l)")
     (auto intro: lexInput_decr)
definition run_state :: "stateFn \<Rightarrow> lexer \<Rightarrow> panic + (stateFn option \<times> lexer)" where
  "run_state f l = (case f of LexInput \<Rightarrow> lexInput l | LexName \<Rightarrow> lexName l | LexInteger \<Rightarrow> lexInteger l)"

lemma send_items: "send l i = Inr l1 \<Longrightarrow> items l1 \<noteq> []"
  by (auto simp: send_def split: if_splits)

lemma emit_items: "emit l t = Inr l1 \<Longrightarrow> items l1 \<noteq> []"
  by (auto simp: emit_def bindP_def dest!: send_items split: sum.splits)

lemma errorf_items: "errorf l msg = Inr (st, l1) \<Longrightarrow> st = None \<and> items l1 \<noteq> []"
  by (auto simp: errorf_def bindP_def dest!: send_items split: sum.splits)

lemma lexName_items: "lexName l = Inr (st, l1) \<Longrightarrow> items l1 \<noteq> []"
  by (auto simp: lexName_def Let_def bindP_def dest!: emit_items split: sum.splits)

lemma lexInteger_items: "lexInteger l = Inr (st, l1) \<Longrightarrow> items l1 \<noteq> []"
  by (auto simp: lexInteger_def Let_def bindP_def dest!: emit_items split: sum.splits)

text \<open>
  What a state function leaves behind when it returns: \<open>lexInput\<close> never hands over to
  itself, and a nil next state comes with an item in the channel.
\<close>

fun lex_ok :: "panic + (stateFn option \<times> lexer) \<Rightarrow> bool" where
  "lex_ok (Inl e) = True"
| "lex_ok (Inr (st, l1)) = (st \<noteq> Some LexInput \<and> (st = None \<longrightarrow> items l1 \<noteq> []))"

lemma lex_ok_errorf: "lex_ok (errorf l msg)"
  by (cases "errorf l msg") (auto dest: errorf_items)

lemma lex_ok_eof: "lex_ok (bindP (emit l t) (\<lambda>l2. Inr (None, l2)))"
  by (cases "emit l t") (auto dest: emit_items)

lemma lex_ok_lexInput: "lex_ok (lexInput l)"
proof (induction l rule: lexInput.induct)
  case (1 l)
  obtain r l1 where n: "next_rune l = (r, l1)" by (metis prod.exhaust)
  show ?case
  proof (cases r)
    case None
    show ?thesis
      by (subst lexInput.simps) (simp add: n None lex_ok_eof del: lexInput.simps)
  next
    case (Some c)
    note IH = "1.IH" [OF n [symmetric] Some]
    have emitted: "lex_ok (case emit l1 t of Inl e \<Rightarrow> Inl e | Inr l2 \<Rightarrow> lexInput l2)"
      if "\<And>l2. emit l1 t = Inr l2 \<Longrightarrow> lex_ok (lexInput l2)" for t
      using that by (cases "emit l1 t") simp_all
    obtain nr l3 where nn: "next_rune l1 = (nr, l3)" by (metis prod.exhaust)
    show ?thesis
      apply (subst lexInput.simps)
      apply (simp only: n Some nn prod.case option.case)
      apply (intro emitted lex_ok_errorf conjI impI if_split [where P = lex_ok, THEN iffD2]
             | (rule IH; (assumption | rule nn [symmetric]))
             | simp del: lexInput.simps)+
      done
  qed
qed

lemma lexInput_result:
  "lexInput l = Inr (st, l1) \<Longrightarrow> st \<noteq> Some LexInput \<and> (st = None \<longrightarrow> items l1 \<noteq> [])"
  using lex_ok_lexInput [of l] by simp

text \<open>
  \<open>nextItem\<close>: an item waiting in the channel is returned; otherwise the current state
  function runs (a nil state is a nil function call) and the loop goes round.
\<close>

function nextItem :: "lexer \<Rightarrow> panic + (item \<times> lexer)" where
  "nextItem l =
     (case items l of
        i # rest \<Rightarrow> Inr (i, l\<lparr>items := rest\<rparr>)
      | [] \<Rightarrow>
          (case state l of
             None \<Rightarrow> Inl NilDereference
           | Some f \<Rightarrow>
               (case run_state f l of
                  Inl e \<Rightarrow> Inl e
                | Inr (st, l1) \<Rightarrow> nextItem (l1\<lparr>state := st\<rparr>))))"
  by pat_completeness auto
termination
proof (relation "measure (\<lambda>l. if items l \<noteq> [] then 0 else
          (case state l of None \<Rightarrow> 0 | Some LexInput \<Rightarrow> 2 | Some LexName \<Rightarrow> 1 | Some LexInteger \<Rightarrow> 1))",
       goal_cases)
  case 1
  show ?case by simp
next
  case (2 l f r st l1)
  then have r: "run_state f l = Inr (st, l1)" by simp
  show ?case
  proof (cases f)
    case LexInput
    with r lexInput_result [of l st l1] 2 show ?thesis
      by (cases st) (auto simp: run_state_def split: stateFn.splits)
  next
    case LexName
    with r lexName_items [of l st l1] 2 show ?thesis
      by (auto simp: run_state_def)
  next
    case LexInteger
    with r lexInteger_items [of l st l1] 2 show ?thesis
      by (auto simp: run_state_def)
  qed
qed

section \<open>The opcode table\<close>

datatype insFormat = rformat | iformat | dformat | bformat | cbformat | iwformat | imformat

definition opcodes :: "string \<rightharpoonup> insFormat" where
  "opcodes = map_of
     [(''ADD'', rformat), (''ADDI'', iformat), (''ADDIS'', iformat), (''ADDS'', rformat),
      (''AND'', rformat), (''ANDI'', iformat), (''ANDIS'', iformat), (''ANDS'', rformat),
      (''B'', bformat), (''B.EQ'', bformat), (''B.NE'', bformat), (''B.LT'', bformat),
      (''B.LE'', bformat), (''B.GT'', bformat), (''B.GE'', bformat), (''B.LO'', bformat),
      (''B.LS'', bformat), (''B.HI'', bformat), (''B.HS'', bformat), (''B.MI'', bformat),
      (''B.PL'', bformat), (''B.VS'', bformat), (''B.VC'', bformat), (''BL'', bformat),
      (''BR'', bformat), (''CBNZ'', cbformat), (''CBZ'', cbformat), (''EOR'', rformat),
      (''EORI'', iformat), (''LDUR'', dformat), (''LDURB'', dformat), (''LDURH'', dformat),
      (''LDURS'', dformat), (''LDXR'', dformat), (''LSL'', iformat), (''LSR'', iformat),
      (''MOVK'', imformat), (''MOVZ'', imformat), (''ORR'', rformat), (''ORRI'', iformat),
      (''STUR'', dformat), (''STURB'', dformat), (''STURH'', dformat), (''STURW'', dformat),
      (''STXR'', dformat), (''SUB'', rformat), (''SUBI'', iformat), (''SUBIS'', iformat),
      (''SUBS'', rformat),
      (''FADDS'', rformat), (''FADDD'', rformat), (''FCMPS'', rformat), (''FCMPD'', rformat),
      (''FDIVS'', rformat), (''FDIVD'', rformat), (''FMULS'', rformat), (''FMULD'', rformat),
      (''FSUBD'', rformat), (''LDURD'', dformat), (''MUL'', rformat), (''SDIV'', rformat),
      (''SMULH'', rformat), (''STURS'', dformat), (''STURD'', dformat), (''UDIV'', rformat),
      (''UMULH'', rformat)]"

text \<open>
  \<open>registerPrefix\<close>: the cases for \<open>LDURS\<close> and \<open>LDURD\<close> are empty, and a Go case does not
  fall through, so they leave the switch and reach the final \<open>return 'X'\<close>.
\<close>

definition registerPrefix :: "Instruction \<Rightarrow> char" where
  "registerPrefix as =
     (if HasPrefix (Op as) ''F'' then (if HasSuffix (Op as) ''S'' then CHR ''S'' else CHR ''D'')
      else if Op as = ''LDURS'' then CHR ''X''
      else if Op as = ''STURS'' then CHR ''S''
      else if Op as = ''LDURD'' then CHR ''X''
      else if Op as = ''STURD'' then CHR ''D''
      else CHR ''X'')"

section \<open>The parser\<close>

text \<open>\<open>err.Error()\<close>, which \<open>%v\<close> prints.\<close>

fun Error :: "error \<Rightarrow> string" where
  "Error EOF = ''EOF''"
| "Error (Errorf s) = s"

text \<open>
  \<open>strconv.ParseUint(s, 10, bitSize)\<close>: decimal digits only; on a value that does not fit,
  the largest value of the size and a range error. The message quotes the string, which for
  the strings that reach it (letters, digits, \<open>#\<close>, \<open>.\<close>) is the string in double quotes.
\<close>

definition ParseUint :: "string \<Rightarrow> nat \<Rightarrow> 64 word \<times> error option" where
  "ParseUint s bitSize =
     (if s = [] \<or> \<not> list_all IsDigit s
      then (0, Some (Errorf (''strconv.ParseUint: parsing '' @ [CHR 0x22] @ s @ [CHR 0x22]
                              @ '': invalid syntax'')))
      else
        (let n = foldl (\<lambda>acc c. 10 * acc + (of_char c - 48)) (0 :: int) s in
         if n \<ge> 2 ^ bitSize
         then (word_of_int (2 ^ bitSize - 1),
               Some (Errorf (''strconv.ParseUint: parsing '' @ [CHR 0x22] @ s @ [CHR 0x22]
                              @ '': value out of range'')))
         else (word_of_int n, None)))"

text \<open>\<open>lx\<close> is the pointer to the lexer (nil before \<open>Use\<close>), \<open>pk\<close> the peeked item.\<close>

record Parser =
  lx :: "lexer option"
  pk :: "item option"

definition Use :: "Parser \<Rightarrow> string \<Rightarrow> Parser" where
  "Use p src = p\<lparr>lx := Some (lex src)\<rparr>"

definition lexer_nextItem :: "Parser \<Rightarrow> panic + (item \<times> Parser)" where
  "lexer_nextItem p =
     (case lx p of
        None \<Rightarrow> Inl NilDereference
      | Some l \<Rightarrow> bindP (nextItem l) (\<lambda>(i, l1). Inr (i, p\<lparr>lx := Some l1\<rparr>)))"

definition parser_nextItem :: "Parser \<Rightarrow> panic + (item \<times> Parser)" where
  "parser_nextItem p =
     (case pk p of
        Some i \<Rightarrow> Inr (i, p\<lparr>pk := None\<rparr>)
      | None \<Rightarrow> lexer_nextItem p)"

text \<open>\<open>peek\<close> asks the lexer for an item whether or not one is already held in \<open>pk\<close>.\<close>

definition parser_peek :: "Parser \<Rightarrow> panic + (item \<times> Parser)" where
  "parser_peek p = bindP (lexer_nextItem p) (\<lambda>(i, p1). Inr (i, p1\<lparr>pk := Some i\<rparr>))"

definition expect :: "Parser \<Rightarrow> itemType \<Rightarrow> panic + ((string \<times> error option) \<times> Parser)" where
  "expect p t =
     bindP (parser_nextItem p) (\<lambda>(i, p1).
       if ityp i = itemEOF then Inr (('''', Some EOF), p1)
       else if ityp i \<noteq> t
       then Inr (('''', Some (Errorf (''unexpected token '' @ [CHR 0x27] @ itext i @ [CHR 0x27]))), p1)
       else Inr ((itext i, None), p1))"

definition has :: "Parser \<Rightarrow> itemType \<Rightarrow> panic + (bool \<times> Parser)" where
  "has p t = bindP (parser_peek p) (\<lambda>(i, p1). Inr (ityp i = t, p1))"

definition not_a_register :: "string \<Rightarrow> error" where
  "not_a_register t = Errorf (''not a register '' @ [CHR 0x27] @ t @ [CHR 0x27])"

definition expectRegister :: "Parser \<Rightarrow> char \<Rightarrow> panic + ((Register \<times> error option) \<times> Parser)" where
  "expectRegister p prefix =
     bindP (expect p itemName) (\<lambda>((t, err), p1).
       case err of
         Some e \<Rightarrow> Inr ((0, Some e), p1)
       | None \<Rightarrow>
           if length t > 3 then Inr ((0, Some (not_a_register t)), p1)
           else if prefix \<noteq> CHR ''X'' \<and> prefix \<noteq> CHR ''S'' \<and> prefix \<noteq> CHR ''D''
           then Inr ((0, Some (Errorf (''expecting register type '' @ quoted prefix))), p1)
           else
             (let base = (if prefix = CHR ''X'' then X0 else if prefix = CHR ''S'' then S0 else D0);
                  max = (if prefix = CHR ''X'' then 30 else 31 :: 64 word)
              in if prefix = CHR ''X'' \<and> t = ''SP'' then Inr ((SP, None), p1)
                 else if prefix = CHR ''X'' \<and> t = ''FP'' then Inr ((FP, None), p1)
                 else if prefix = CHR ''X'' \<and> t = ''LR'' then Inr ((LR, None), p1)
                 else if prefix = CHR ''X'' \<and> t = ''XZR'' then Inr ((XZR, None), p1)
                 else if prefix = CHR ''X'' \<and> t = ''IP0'' then Inr ((IP0, None), p1)
                 else if prefix = CHR ''X'' \<and> t = ''IP1'' then Inr ((IP1, None), p1)
                 else if t = [] then Inl IndexOutOfRange
                 else if hd t \<noteq> prefix then Inr ((0, Some (not_a_register t)), p1)
                 else
                   (case ParseUint (tl t) 8 of
                      (n, err) \<Rightarrow>
                        if err \<noteq> None \<or> n > max then Inr ((0, Some (not_a_register t)), p1)
                        else Inr ((base + ucast n, None), p1))))"

text \<open>\<open>expectImmediate\<close> ignores its \<open>bitsize\<close> and always parses 32 bits.\<close>

definition expectImmediate :: "Parser \<Rightarrow> nat \<Rightarrow> panic + ((64 word \<times> error option) \<times> Parser)" where
  "expectImmediate p bitsize =
     bindP (expect p itemInteger) (\<lambda>((imm, err), p1).
       case err of
         Some e \<Rightarrow> Inr ((0, Some (Errorf (''not an integer: '' @ Error e))), p1)
       | None \<Rightarrow>
           if imm = [] then Inl IndexOutOfRange
           else
             (let imm1 = (if hd imm = CHR ''#'' then tl imm else imm) in
              case ParseUint imm1 32 of
                (n, Some e) \<Rightarrow> Inr ((0, Some (Errorf (Error e))), p1)
              | (n, None) \<Rightarrow> Inr ((n, None), p1)))"

definition expectOffset :: "Parser \<Rightarrow> Instruction \<Rightarrow> panic + ((Addr \<times> error option) \<times> Parser)" where
  "expectOffset p as =
     bindP (expect p itemLbrack) (\<lambda>((t, err), p1).
       case err of
         Some e \<Rightarrow> Inr ((Addr0, Some e), p1)
       | None \<Rightarrow>
           bindP (expectRegister p1 (registerPrefix as)) (\<lambda>((r, err), p2).
             let a1 = Addr0\<lparr>AReg := r\<rparr> in
             case err of
               Some e \<Rightarrow> Inr ((a1, Some e), p2)
             | None \<Rightarrow>
                 bindP (expect p2 itemComma) (\<lambda>((t, err), p3).
                   case err of
                     Some e \<Rightarrow> Inr ((a1, Some e), p3)
                   | None \<Rightarrow>
                       bindP (expectImmediate p3 32) (\<lambda>((n, err), p4).
                         let a2 = a1\<lparr>AOffset := n\<rparr> in
                         case err of
                           Some e \<Rightarrow> Inr ((a2, Some (Errorf (''offset: '' @ Error e))), p4)
                         | None \<Rightarrow>
                             bindP (expect p4 itemRbrack) (\<lambda>((t, err), p5).
                               case err of
                                 Some e \<Rightarrow> Inr ((a2, Some e), p5)
                               | None \<Rightarrow> Inr ((a2, None), p5))))))"

definition expectAddr :: "Parser \<Rightarrow> Instruction \<Rightarrow> panic + ((Addr \<times> error option) \<times> Parser)" where
  "expectAddr p as =
     bindP (has p itemInteger) (\<lambda>(isint, p1).
       if isint then
         bindP (expect p1 itemInteger) (\<lambda>((ofs, err), p2).
           case err of
             Some e \<Rightarrow> Inr ((Addr0, Some (Errorf (''to: '' @ Error e))), p2)
           | None \<Rightarrow>
               (case ParseUint ofs 64 of
                  (n, Some e) \<Rightarrow> Inr ((Addr0\<lparr>AOffset := n\<rparr>, Some (Errorf (''to: '' @ Error e))), p2)
                | (n, None) \<Rightarrow> Inr ((Addr0\<lparr>AOffset := n\<rparr>, None), p2)))
       else
         bindP (expect p1 itemName) (\<lambda>((name, err), p2).
           case err of
             Some e \<Rightarrow> Inr ((Addr0\<lparr>ALabel := name\<rparr>, Some (Errorf (''to: '' @ Error e))), p2)
           | None \<Rightarrow> Inr ((Addr0\<lparr>ALabel := name\<rparr>, None), p2)))"

text \<open>
  The format parsers work on the instruction through a pointer: what they have stored when an
  error stops them stays stored. Each returns the instruction with its error.
\<close>

definition rformatParser :: "Parser \<Rightarrow> Instruction \<Rightarrow> panic + ((Instruction \<times> error option) \<times> Parser)" where
  "rformatParser p as =
     bindP (expectRegister p (registerPrefix as)) (\<lambda>((r, err), p1).
       let as1 = as\<lparr>To := (To as)\<lparr>AReg := r\<rparr>\<rparr> in
       case err of
         Some e \<Rightarrow> Inr ((as1, Some (Errorf (''to: '' @ Error e))), p1)
       | None \<Rightarrow>
           bindP (expect p1 itemComma) (\<lambda>((t, err), p2).
             case err of
               Some e \<Rightarrow> Inr ((as1, Some e), p2)
             | None \<Rightarrow>
                 bindP (expectRegister p2 (registerPrefix as1)) (\<lambda>((r, err), p3).
                   let as2 = as1\<lparr>From := (From as1)\<lparr>AReg := r\<rparr>\<rparr> in
                   case err of
                     Some e \<Rightarrow> Inr ((as2, Some (Errorf (''first operand: '' @ Error e))), p3)
                   | None \<Rightarrow>
                       bindP (expect p3 itemComma) (\<lambda>((t, err), p4).
                         case err of
                           Some e \<Rightarrow> Inr ((as2, Some e), p4)
                         | None \<Rightarrow>
                             bindP (expectRegister p4 (registerPrefix as2)) (\<lambda>((r, err), p5).
                               let as3 = as2\<lparr>Reg := r\<rparr> in
                               case err of
                                 Some e \<Rightarrow> Inr ((as3, Some (Errorf (''second operand: '' @ Error e))), p5)
                               | None \<Rightarrow> Inr ((as3, None), p5))))))"

definition dformatParser :: "Parser \<Rightarrow> Instruction \<Rightarrow> panic + ((Instruction \<times> error option) \<times> Parser)" where
  "dformatParser p as =
     bindP (expectRegister p (registerPrefix as)) (\<lambda>((r, err), p1).
       let as1 = as\<lparr>To := (To as)\<lparr>AReg := r\<rparr>\<rparr> in
       case err of
         Some e \<Rightarrow> Inr ((as1, Some (Errorf (''to: '' @ Error e))), p1)
       | None \<Rightarrow>
           bindP (expect p1 itemComma) (\<lambda>((t, err), p2).
             case err of
               Some e \<Rightarrow> Inr ((as1, Some e), p2)
             | None \<Rightarrow>
                 bindP (expectOffset p2 as1) (\<lambda>((a, err), p3).
                   let as2 = as1\<lparr>From := a\<rparr> in
                   case err of
                     Some e \<Rightarrow> Inr ((as2, Some (Errorf (''from: '' @ Error e))), p3)
                   | None \<Rightarrow> Inr ((as2, None), p3))))"

definition iformatParser :: "Parser \<Rightarrow> Instruction \<Rightarrow> panic + ((Instruction \<times> error option) \<times> Parser)" where
  "iformatParser p as =
     bindP (expectRegister p (registerPrefix as)) (\<lambda>((r, err), p1).
       let as1 = as\<lparr>To := (To as)\<lparr>AReg := r\<rparr>\<rparr> in
       case err of
         Some e \<Rightarrow> Inr ((as1, Some (Errorf (''to: '' @ Error e))), p1)
       | None \<Rightarrow>
           bindP (expect p1 itemComma) (\<lambda>((t, err), p2).
             case err of
               Some e \<Rightarrow> Inr ((as1, Some e), p2)
             | None \<Rightarrow>
                 bindP (expectRegister p2 (registerPrefix as1)) (\<lambda>((r, err), p3).
                   let as2 = as1\<lparr>From := (From as1)\<lparr>AReg := r\<rparr>\<rparr> in
                   case err of
                     Some e \<Rightarrow> Inr ((as2, Some (Errorf (''first operand: '' @ Error e))), p3)
                   | None \<Rightarrow>
                       bindP (expect p3 itemComma) (\<lambda>((t, err), p4).
                         case err of
                           Some e \<Rightarrow> Inr ((as2, Some e), p4)
                         | None \<Rightarrow>
                             bindP (expectImmediate p4 16) (\<lambda>((n, err), p5).
                               let as3 = as2\<lparr>Imm := n\<rparr> in
                               case err of
                                 Some e \<Rightarrow> Inr ((as3, Some (Errorf (''immediate: '' @ Error e))), p5)
                               | None \<Rightarrow> Inr ((as3, None), p5))))))"

definition bformatParser :: "Parser \<Rightarrow> Instruction \<Rightarrow> panic + ((Instruction \<times> error option) \<times> Parser)" where
  "bformatParser p as =
     (if Op as = ''BR'' then
        bindP (expectRegister p (registerPrefix as)) (\<lambda>((r, err), p1).
          let as1 = as\<lparr>To := (To as)\<lparr>AReg := r\<rparr>\<rparr> in
          case err of
            Some e \<Rightarrow> Inr ((as1, Some (Errorf (''to: '' @ Error e))), p1)
          | None \<Rightarrow> Inr ((as1, None), p1))
      else
        bindP (expectAddr p as) (\<lambda>((a, err), p1).
          let as1 = as\<lparr>To := a\<rparr> in
          case err of
            Some e \<Rightarrow> Inr ((as1, Some (Errorf (''to: '' @ Error e))), p1)
          | None \<Rightarrow> Inr ((as1, None), p1)))"

definition cbformatParser :: "Parser \<Rightarrow> Instruction \<Rightarrow> panic + ((Instruction \<times> error option) \<times> Parser)" where
  "cbformatParser p as =
     bindP (expectRegister p (registerPrefix as)) (\<lambda>((r, err), p1).
       let as1 = as\<lparr>From := (From as)\<lparr>AReg := r\<rparr>\<rparr> in
       case err of
         Some e \<Rightarrow> Inr ((as1, Some (Errorf (''from: '' @ Error e))), p1)
       | None \<Rightarrow>
           bindP (expect p1 itemComma) (\<lambda>((t, err), p2).
             case err of
               Some e \<Rightarrow> Inr ((as1, Some e), p2)
             | None \<Rightarrow>
                 bindP (expect p2 itemName) (\<lambda>((name, err), p3).
                   let as2 = as1\<lparr>To := (To as1)\<lparr>ALabel := name\<rparr>\<rparr> in
                   case err of
                     Some e \<Rightarrow> Inr ((as2, Some (Errorf (''to: '' @ Error e))), p3)
                   | None \<Rightarrow> Inr ((as2, None), p3))))"

definition iwformatParser :: "Parser \<Rightarrow> Instruction \<Rightarrow> panic + ((Instruction \<times> error option) \<times> Parser)" where
  "iwformatParser p as =
     bindP (expectRegister p (registerPrefix as)) (\<lambda>((r, err), p1).
       let as1 = as\<lparr>To := (To as)\<lparr>AReg := r\<rparr>\<rparr> in
       case err of
         Some e \<Rightarrow> Inr ((as1, Some (Errorf (''to: '' @ Error e))), p1)
       | None \<Rightarrow>
           bindP (expect p1 itemComma) (\<lambda>((t, err), p2).
             case err of
               Some e \<Rightarrow> Inr ((as1, Some e), p2)
             | None \<Rightarrow>
                 bindP (expectImmediate p2 32) (\<lambda>((n, err), p3).
                   let as2 = as1\<lparr>Imm := n\<rparr> in
                   case err of
                     Some e \<Rightarrow> Inr ((as2, Some (Errorf (''immediate: '' @ Error e))), p3)
                   | None \<Rightarrow> Inr ((as2, None), p3))))"

text \<open>The parser of a format; \<open>imformat\<close> has none.\<close>

definition format_parser ::
  "insFormat \<Rightarrow> (Parser \<Rightarrow> Instruction \<Rightarrow> panic + ((Instruction \<times> error option) \<times> Parser)) option" where
  "format_parser f =
     (case f of
        rformat \<Rightarrow> Some rformatParser
      | iformat \<Rightarrow> Some iformatParser
      | dformat \<Rightarrow> Some dformatParser
      | bformat \<Rightarrow> Some bformatParser
      | cbformat \<Rightarrow> Some cbformatParser
      | iwformat \<Rightarrow> Some iwformatParser
      | imformat \<Rightarrow> None)"

text \<open>
  The second half of \<open>Parser.Next\<close>, from the table lookup on, once the label and the opcode
  are stored in the instruction.
\<close>

definition dispatch :: "Parser \<Rightarrow> Instruction \<Rightarrow> panic + ((Instruction \<times> error option) \<times> Parser)" where
  "dispatch p as =
     (case opcodes (Op as) of
        None \<Rightarrow> Inr ((as, Some (Errorf (''opcode not supported: '' @ Op as))), p)
      | Some f \<Rightarrow>
          (case format_parser f of
             None \<Rightarrow> Inl (PanicMsg (''opcode: '' @ Op as @ '' missing parser''))
           | Some fp \<Rightarrow> fp p as))"

definition Next :: "Parser \<Rightarrow> panic + ((Instruction \<times> error option) \<times> Parser)" where
  "Next p =
     bindP (expect p itemName) (\<lambda>((name, err), p1).
       case err of
         Some e \<Rightarrow> Inr ((Instruction0, Some e), p1)
       | None \<Rightarrow>
           bindP (has p1 itemColon) (\<lambda>(colon, p2).
             if colon then
               bindP (expect p2 itemColon) (\<lambda>(r, p3).
               bindP (expect p3 itemName) (\<lambda>((op, err), p4).
                 case err of
                   Some e \<Rightarrow> Inr ((Instruction0\<lparr>Label := name\<rparr>, Some e), p4)
                 | None \<Rightarrow> dispatch p4 (Instruction0\<lparr>Label := name, Op := op\<rparr>)))
             else dispatch p2 (Instruction0\<lparr>Op := name\<rparr>)))"

section \<open>The driver\<close>

text \<open>
  The parse loop of \<open>main\<close>: instructions are appended until \<open>Next\<close> returns \<open>io.EOF\<close>, which
  ends the loop quietly; any other error is fatal (\<open>Inr (Inl e)\<close>).
\<close>

partial_function (option) parse_all ::
  "Parser \<Rightarrow> Instruction list \<Rightarrow> (panic + (error + Instruction list)) option" where
  "parse_all p acc =
     (case Next p of
        Inl e \<Rightarrow> Some (Inl e)
      | Inr ((as, err), p1) \<Rightarrow>
          (case err of
             Some e \<Rightarrow> if e = EOF then Some (Inr (Inr acc)) else Some (Inr (Inl e))
           | None \<Rightarrow> parse_all p1 (acc @ [as])))"

definition Parser0 :: Parser where
  "Parser0 = \<lparr>lx = None, pk = None\<rparr>"

declare parse_all.simps [code]

text \<open>
  What the first \<open>Next\<close> of a fresh parser over a source text returns: the instruction and the
  error.
\<close>

definition parsed :: "string \<Rightarrow> panic + (Instruction \<times> error option)" where
  "parsed src = map_sum id fst (Next (Use Parser0 src))"

text \<open>
  \<open>main\<close> on a source text: parse, \<open>Load\<close> into a zero CPU, step until \<open>Step\<close> returns
  false. A parse error is fatal; \<open>Load\<close> never returns an error.
\<close>

definition simulate :: "string \<Rightarrow> rand \<Rightarrow> (panic + (error + CPU \<times> rand)) option" where
  "simulate src g =
     (case parse_all (Use Parser0 src) [] of
        None \<Rightarrow> None
      | Some (Inl e) \<Rightarrow> Some (Inl e)
      | Some (Inr (Inl e)) \<Rightarrow> Some (Inr (Inl e))
      | Some (Inr (Inr p)) \<Rightarrow>
          (case Load CPU0 g p of
             (Some e, cpu, g1) \<Rightarrow> Some (Inr (Inl e))
           | (None, cpu, g1) \<Rightarrow>
               (case run cpu g1 of
                  None \<Rightarrow> None
                | Some (Inl e) \<Rightarrow> Some (Inl e)
                | Some (Inr r) \<Rightarrow> Some (Inr (Inr r)))))"

section \<open>Concrete inputs\<close>

text \<open>A generator whose every byte is 0.\<close>

definition rand0 :: rand where
  "rand0 = (\<lambda>i. 0)"

text \<open>A one-line program: \<open>B 1\<close>, a jump one instruction ahead, off the end.\<close>

definition c9_prog :: "Instruction list" where
  "c9_prog = [Instruction0\<lparr>Op := ''B'', To := Addr0\<lparr>AOffset := 1\<rparr>\<rparr>]"

text \<open>
  The opcodes of the table that neither \<open>arith\<close> nor \<open>branch\<close> nor \<open>memory\<close> handles.
\<close>

definition unhandled_ops :: "string list" where
  "unhandled_ops =
     [''SDIV'', ''UDIV'', ''SMULH'', ''UMULH'',
      ''FADDS'', ''FADDD'', ''FCMPS'', ''FCMPD'', ''FDIVS'', ''FDIVD'', ''FMULS'', ''FMULD'', ''FSUBD'',
      ''LDURB'', ''LDURH'', ''LDURS'', ''LDURD'',
      ''STURB'', ''STURH'', ''STURW'', ''STURS'', ''STURD'',
      ''LDXR'', ''STXR'', ''MOVZ'', ''MOVK'']"

text \<open>\<open>FADDS S1, S2, S3\<close> as the R-format parser fills it: three single-precision registers.\<close>

definition c10_float :: Instruction where
  "c10_float = Instruction0\<lparr>Op := ''FADDS'', To := Addr0\<lparr>AReg := S0 + 1\<rparr>,
                  From := Addr0\<lparr>AReg := S0 + 2\<rparr>, Reg := S0 + 3\<rparr>"

text \<open>
  A program with the three kinds of branch, and the CPU that \<open>Load\<close> makes of it, at a
  given PC:
  \<^verbatim>\<open>      BL   func\<close>
  \<^verbatim>\<open>      B    end\<close>
  \<^verbatim>\<open>func: B.EQ func\<close>
  \<^verbatim>\<open>end:  ADDI X1, XZR, #1\<close>
\<close>

definition c6_prog :: "Instruction list" where
  "c6_prog =
     [Instruction0\<lparr>Op := ''BL'', To := Addr0\<lparr>ALabel := ''func''\<rparr>\<rparr>,
      Instruction0\<lparr>Op := ''B'', To := Addr0\<lparr>ALabel := ''end''\<rparr>\<rparr>,
      Instruction0\<lparr>Op := ''B.EQ'', To := Addr0\<lparr>ALabel := ''func''\<rparr>, Label := ''func''\<rparr>,
      Instruction0\<lparr>Op := ''ADDI'', To := Addr0\<lparr>AReg := 1\<rparr>, From := Addr0\<lparr>AReg := XZR\<rparr>,
                    Imm := 1, Label := ''end''\<rparr>]"

definition c6_cpu :: "64 word \<Rightarrow> CPU" where
  "c6_cpu pc = (fst (snd (Load CPU0 rand0 c6_prog)))\<lparr>PC := pc\<rparr>"

text \<open>
  \<open>ADDS X3, X1, X2\<close> on a CPU with given X1, X2 and flags (every other register 0), and
  what a \<open>Step\<close> leaves in X3 and in the flags.
\<close>

definition c1_prog :: "Instruction list" where
  "c1_prog = [Instruction0\<lparr>Op := ''ADDS'', To := Addr0\<lparr>AReg := 3\<rparr>,
                            From := Addr0\<lparr>AReg := 1\<rparr>, Reg := 2\<rparr>]"

definition c1_cpu :: "64 word \<Rightarrow> 64 word \<Rightarrow> 8 word \<Rightarrow> CPU" where
  "c1_cpu x1 x2 fl = CPU0\<lparr>prog := c1_prog, Registers := (replicate 32 0)[1 := x1, 2 := x2], Flags := fl\<rparr>"

definition result_and_flags :: "panic + (bool \<times> CPU \<times> rand) \<Rightarrow> (64 word \<times> 8 word) option" where
  "result_and_flags r = (case r of Inl e \<Rightarrow> None | Inr (b, c, g) \<Rightarrow> Some (Registers c ! 3, Flags c))"

text \<open>Sixteen bytes, to be written across a block boundary.\<close>

definition c4_bytes :: "8 word list" where
  "c4_bytes = [1, 2, 3, 4, 5, 6, 7, 8, 9, 10, 11, 12, 13, 14, 15, 16]"

text \<open>A generator whose every byte is 1: every register is seeded with \<open>0x0101010101010101\<close>.\<close>

definition rand1 :: rand where
  "rand1 = (\<lambda>i. 1)"

text \<open>Scenario S1, as source text and as the program the parser makes of it.\<close>

definition S1_text :: string where
  "S1_text = ''       ADDI X1, XZR, #5'' @ [CHR 0x0A] @ ''       ADDI X2, XZR, #7'' @ [CHR 0x0A]
     @ ''       ADD  X3, X1, X2'' @ [CHR 0x0A] @ ''       STUR X3, [XZR, #0]'' @ [CHR 0x0A]"

definition S1_prog :: "Instruction list" where
  "S1_prog =
     [Instruction0\<lparr>Op := ''ADDI'', To := Addr0\<lparr>AReg := 1\<rparr>, From := Addr0\<lparr>AReg := 31\<rparr>, Imm := 5\<rparr>,
      Instruction0\<lparr>Op := ''ADDI'', To := Addr0\<lparr>AReg := 2\<rparr>, From := Addr0\<lparr>AReg := 31\<rparr>, Imm := 7\<rparr>,
      Instruction0\<lparr>Op := ''ADD'', To := Addr0\<lparr>AReg := 3\<rparr>, From := Addr0\<lparr>AReg := 1\<rparr>, Reg := 2\<rparr>,
      Instruction0\<lparr>Op := ''STUR'', To := Addr0\<lparr>AReg := 3\<rparr>, From := Addr0\<lparr>AReg := 31\<rparr>\<rparr>]"

text \<open>What a run leaves in X3 and at the memory addresses 0 to 7.\<close>

definition X3_and_memory ::
  "(panic + (error + CPU \<times> rand)) option \<Rightarrow> (64 word \<times> 8 word option list) option" where
  "X3_and_memory r =
     (case r of
        Some (Inr (Inr (cpu, g))) \<Rightarrow>
          (case Memory cpu of
             Some m \<Rightarrow> Some (Registers cpu ! 3, map (\<lambda>i. peek m (of_nat i)) [0..<8])
           | None \<Rightarrow> None)
      | _ \<Rightarrow> None)"

text \<open>
  A program with a \<open>CBZ\<close>, as source text and as parsed, and the CPU that \<open>Load\<close> makes of it
  with given values in X0 and X1 (every other register 0).
\<close>

definition c3_text :: string where
  "c3_text = ''       CBZ  X1, skip'' @ [CHR 0x0A] @ ''       ADDI X2, XZR, #9'' @ [CHR 0x0A]
     @ ''skip:  ADDI X3, XZR, #7'' @ [CHR 0x0A]"

definition c3_prog :: "Instruction list" where
  "c3_prog =
     [Instruction0\<lparr>Op := ''CBZ'', To := Addr0\<lparr>ALabel := ''skip''\<rparr>, From := Addr0\<lparr>AReg := 1\<rparr>\<rparr>,
      Instruction0\<lparr>Op := ''ADDI'', To := Addr0\<lparr>AReg := 2\<rparr>, From := Addr0\<lparr>AReg := 31\<rparr>, Imm := 9\<rparr>,
      Instruction0\<lparr>Op := ''ADDI'', To := Addr0\<lparr>AReg := 3\<rparr>, From := Addr0\<lparr>AReg := 31\<rparr>, Imm := 7,
                    Label := ''skip''\<rparr>]"

definition c3_cpu :: "Instruction list \<Rightarrow> 64 word \<Rightarrow> 64 word \<Rightarrow> CPU" where
  "c3_cpu p x0 x1 = (fst (snd (Load CPU0 rand0 p)))\<lparr>Registers := (replicate 32 0)[0 := x0, 1 := x1]\<rparr>"

definition PC_after :: "panic + (bool \<times> CPU \<times> rand) \<Rightarrow> 64 word option" where
  "PC_after r = (case r of Inl e \<Rightarrow> None | Inr (b, c, g) \<Rightarrow> Some (PC c))"

text \<open>
  \<open>LSL X1, X2, #3\<close> and \<open>LSR X1, X2, #3\<close> as parsed, the CPU with the instruction as its
  program and given values in X0 and X2, and what a \<open>Step\<close> leaves in X1.
\<close>

definition c7_shift :: "string \<Rightarrow> Instruction" where
  "c7_shift op = Instruction0\<lparr>Op := op, To := Addr0\<lparr>AReg := 1\<rparr>, From := Addr0\<lparr>AReg := 2\<rparr>, Imm := 3\<rparr>"

definition c7_cpu :: "string \<Rightarrow> 64 word \<Rightarrow> 64 word \<Rightarrow> CPU" where
  "c7_cpu op x0 x2 = CPU0\<lparr>prog := [c7_shift op], Registers := (replicate 32 0)[0 := x0, 2 := x2]\<rparr>"

definition X1_after :: "panic + (bool \<times> CPU \<times> rand) \<Rightarrow> 64 word option" where
  "X1_after r = (case r of Inl e \<Rightarrow> None | Inr (b, c, g) \<Rightarrow> Some (Registers c ! 1))"

section \<open>Basic facts\<close>

lemma bindP_eq_Inr:
  "bindP m f = Inr y \<longleftrightarrow> (\<exists>x. m = Inr x \<and> f x = Inr y)"
  by (cases m) simp_all

lemma reg_write_prog: "reg_write cpu r v = Inr c \<Longrightarrow> prog c = prog cpu \<and> PC c = PC cpu"
  by (auto simp: reg_write_def split: if_splits)

lemma setFlags_prog: "setFlags cpu as carry = Inr c \<Longrightarrow> prog c = prog cpu \<and> PC c = PC cpu"
  by (auto simp: setFlags_def bindP_eq_Inr split: if_splits)

lemma arith_prog: "arith cpu as = Inr (b, c) \<Longrightarrow> prog c = prog cpu \<and> PC c = PC cpu"
  by (auto simp: arith_def bindP_eq_Inr dest!: reg_write_prog setFlags_prog split: if_splits prod.splits)

lemma branch_prog: "branch cpu as = Inr (b, c) \<Longrightarrow> prog c = prog cpu"
  by (auto simp: branch_def bindP_eq_Inr dest!: reg_write_prog split: if_splits prod.splits option.splits)

lemma memory_prog: "memory cpu g as = Inr (b, c, g') \<Longrightarrow> prog c = prog cpu"
  by (auto simp: memory_def bindP_eq_Inr split_beta dest!: reg_write_prog split: if_splits option.splits)

lemma Step_result:
  assumes "Step cpu g = Inr (b, cpu', g')"
  shows "prog cpu' = prog cpu \<and> (prog cpu \<noteq> [] \<longrightarrow> b = in_prog cpu')"
  using assms
  by (auto simp: Step_def Let_def bindP_eq_Inr in_prog_def 
       dest!: arith_prog branch_prog memory_prog split: if_splits)

lemmas cpu_defs = Step_def arith_def branch_def memory_def valuesFor_def reg_read_def reg_write_def
  setFlags_def shouldBranch_def addr_def map_index_def in_prog_def HasPrefix_def HasSuffix_def Add64_def Sub64_def
  CPU0_def Instruction0_def Addr0_def flagN_def flagZ_def flagV_def flagC_def Let_def

lemma seed_registers_length: "length (fst (seed_registers i rs g)) = length rs"
  by (induction i rs g rule: seed_registers.induct)
     (simp add: split_beta del: seed_registers.simps add: seed_registers.simps [of i rs g for i rs g])

lemma c6_cpu_simps:
  "prog (c6_cpu pc) = c6_prog" "PC (c6_cpu pc) = pc" "Flags (c6_cpu pc) = 0"
  "length (Registers (c6_cpu pc)) = 32"
  "labels (c6_cpu pc) = scan_labels 0 c6_prog Map.empty"
  by (simp_all add: c6_cpu_def Load_def split_beta CPU0_def seed_registers_length)

section \<open>Step outside the program\<close>

text \<open>
  Claim C9. With a non-empty program and \<open>PC \<ge> len(prog)\<close>, \<open>Step\<close> panics: it indexes
  \<open>prog[PC]\<close> with no bounds check. Only the empty program returns false safely. So once
  \<open>Step\<close> has returned false on a non-empty program, the next \<open>Step\<close> panics.
\<close>

theorem Step_past_end_panics:
  "(prog cpu \<noteq> [] \<longrightarrow> \<not> unat (PC cpu) < length (prog cpu) \<longrightarrow> Step cpu g = Inl IndexOutOfRange)
   \<and> (prog cpu = [] \<longrightarrow> Step cpu g = Inr (False, cpu, g))
   \<and> (prog cpu \<noteq> [] \<longrightarrow> Step cpu g = Inr (False, cpu', g') \<longrightarrow> Step cpu' g' = Inl IndexOutOfRange)"
proof (intro conjI impI)
  assume "prog cpu \<noteq> []" and "\<not> unat (PC cpu) < length (prog cpu)"
  then show "Step cpu g = Inl IndexOutOfRange"
    by (simp add: Step_def)
next
  assume "prog cpu = []"
  then show "Step cpu g = Inr (False, cpu, g)"
    by (simp add: Step_def)
next
  assume ne: "prog cpu \<noteq> []" and st: "Step cpu g = Inr (False, cpu', g')"
  from Step_result [OF st] ne have "prog cpu' = prog cpu" and "\<not> in_prog cpu'"
    by auto
  with ne show "Step cpu' g' = Inl IndexOutOfRange"
    by (simp add: Step_def in_prog_def)
qed

theorem Step_past_end_panics_witness:
  "(prog (CPU0\<lparr>prog := c9_prog, PC := 1\<rparr>) \<noteq> []
    \<and> \<not> unat (PC (CPU0\<lparr>prog := c9_prog, PC := 1\<rparr>)) < length (prog (CPU0\<lparr>prog := c9_prog, PC := 1\<rparr>))
    \<and> Step (CPU0\<lparr>prog := c9_prog, PC := 1\<rparr>) rand0 = Inl IndexOutOfRange)
   \<and> (prog CPU0 = [] \<and> Step CPU0 rand0 = Inr (False, CPU0, rand0))
   \<and> (prog (CPU0\<lparr>prog := c9_prog\<rparr>) \<noteq> []
      \<and> Step (CPU0\<lparr>prog := c9_prog\<rparr>) rand0 = Inr (False, CPU0\<lparr>prog := c9_prog, PC := 1\<rparr>, rand0)
      \<and> Step (CPU0\<lparr>prog := c9_prog, PC := 1\<rparr>) rand0 = Inl IndexOutOfRange)"
proof -
  have s: "Step (CPU0\<lparr>prog := c9_prog\<rparr>) rand0 = Inr (False, CPU0\<lparr>prog := c9_prog, PC := 1\<rparr>, rand0)"
    by (simp add: cpu_defs c9_prog_def)
  have n: "prog (CPU0\<lparr>prog := c9_prog\<rparr>) \<noteq> []" "prog (CPU0\<lparr>prog := c9_prog, PC := 1\<rparr>) \<noteq> []"
    by (simp_all add: c9_prog_def)
  have e: "prog CPU0 = []" by (simp add: CPU0_def)
  have p: "\<not> unat (PC (CPU0\<lparr>prog := c9_prog, PC := 1\<rparr>)) < length (prog (CPU0\<lparr>prog := c9_prog, PC := 1\<rparr>))"
    by (simp add: c9_prog_def)
  from Step_past_end_panics [of "CPU0\<lparr>prog := c9_prog, PC := 1\<rparr>" rand0] n p
  have 1: "Step (CPU0\<lparr>prog := c9_prog, PC := 1\<rparr>) rand0 = Inl IndexOutOfRange" by blast
  from Step_past_end_panics [of CPU0 rand0] e
  have 2: "Step CPU0 rand0 = Inr (False, CPU0, rand0)" by blast
  from Step_past_end_panics [of "CPU0\<lparr>prog := c9_prog\<rparr>" rand0 "CPU0\<lparr>prog := c9_prog, PC := 1\<rparr>" rand0] n s
  have 3: "Step (CPU0\<lparr>prog := c9_prog, PC := 1\<rparr>) rand0 = Inl IndexOutOfRange" by blast
  from 1 2 3 n e p s show ?thesis by blast
qed

section \<open>Opcodes no handler takes\<close>

lemma unhandled_shape:
  assumes "op \<in> set unhandled_ops"
  shows "\<not> HasSuffix op ''I'' \<and> \<not> HasPrefix op ''ADD'' \<and> \<not> HasPrefix op ''SUB''
         \<and> \<not> HasPrefix op ''EOR'' \<and> \<not> HasPrefix op ''ORR'' \<and> \<not> HasPrefix op ''AND''
         \<and> op \<noteq> ''LSL'' \<and> op \<noteq> ''LSR'' \<and> op \<noteq> ''MUL''
         \<and> op \<noteq> ''B'' \<and> op \<noteq> ''BR'' \<and> op \<noteq> ''BL'' \<and> op \<noteq> ''CBZ'' \<and> op \<noteq> ''CBNZ''
         \<and> \<not> HasPrefix op ''B.'' \<and> op \<noteq> ''STUR'' \<and> op \<noteq> ''LDUR''"
proof -
  from assms have "op = ''SDIV'' \<or> op = ''UDIV'' \<or> op = ''SMULH'' \<or> op = ''UMULH''
      \<or> op = ''FADDS'' \<or> op = ''FADDD'' \<or> op = ''FCMPS'' \<or> op = ''FCMPD'' \<or> op = ''FDIVS''
      \<or> op = ''FDIVD'' \<or> op = ''FMULS'' \<or> op = ''FMULD'' \<or> op = ''FSUBD''
      \<or> op = ''LDURB'' \<or> op = ''LDURH'' \<or> op = ''LDURS'' \<or> op = ''LDURD''
      \<or> op = ''STURB'' \<or> op = ''STURH'' \<or> op = ''STURW'' \<or> op = ''STURS'' \<or> op = ''STURD''
      \<or> op = ''LDXR'' \<or> op = ''STXR'' \<or> op = ''MOVZ'' \<or> op = ''MOVK''"
    by (simp add: unhandled_ops_def)
  then show ?thesis
    by (elim disjE) (simp_all add: HasPrefix_def HasSuffix_def)
qed

lemma unhandled_arith:
  assumes "Op as \<in> set unhandled_ops"
  shows "arith cpu as =
           (if unat (AReg (From as)) < 32 \<and> unat (Reg as) < 32 then Inr (False, cpu)
            else Inl IndexOutOfRange)"
  using unhandled_shape [OF assms]
  by (simp add: arith_def valuesFor_def reg_read_def)

lemma unhandled_branch:
  assumes "Op as \<in> set unhandled_ops"
  shows "branch cpu as = Inr (False, cpu)"
  using unhandled_shape [OF assms]
  by (simp add: branch_def)

lemma unhandled_memory:
  assumes "Op as \<in> set unhandled_ops"
  shows "memory cpu g as = Inr (False, cpu, g)"
  using unhandled_shape [OF assms]
  by (simp add: memory_def)

text \<open>
  Claim C10, as amended. For an instruction whose opcode is in the table but handled by none of
  \<open>arith\<close>, \<open>branch\<close>, \<open>memory\<close>, at a PC inside the program: when its \<open>From.Reg\<close> and
  \<open>Reg\<close> fields index the 32-entry register file, \<open>Step\<close> returns true and leaves PC,
  registers, flags, memory and everything else as they were; otherwise \<open>Step\<close> panics with an
  index out of range, since \<open>arith\<close> reads both registers through \<open>valuesFor\<close> before it
  looks at the opcode.
\<close>

theorem Step_unhandled:
  assumes "Op as \<in> set unhandled_ops"
    and "unat (PC cpu) < length (prog cpu)"
    and "prog cpu ! unat (PC cpu) = as"
  shows "Step cpu g =
           (if unat (AReg (From as)) < 32 \<and> unat (Reg as) < 32 then Inr (True, cpu, g)
            else Inl IndexOutOfRange)"
proof -
  from assms(2) have ne: "length (prog cpu) \<noteq> 0" by auto
  show ?thesis
    unfolding Step_def using ne assms(2,3)
    by (simp add: unhandled_arith [OF assms(1)] unhandled_branch [OF assms(1)]
        unhandled_memory [OF assms(1)] in_prog_def)
qed

theorem Step_unhandled_witness:
  "Op (Instruction0\<lparr>Op := ''MOVZ''\<rparr>) \<in> set unhandled_ops
   \<and> unat (PC (CPU0\<lparr>prog := [Instruction0\<lparr>Op := ''MOVZ''\<rparr>]\<rparr>))
       < length (prog (CPU0\<lparr>prog := [Instruction0\<lparr>Op := ''MOVZ''\<rparr>]\<rparr>))
   \<and> Step (CPU0\<lparr>prog := [Instruction0\<lparr>Op := ''MOVZ''\<rparr>]\<rparr>) rand0
       = Inr (True, CPU0\<lparr>prog := [Instruction0\<lparr>Op := ''MOVZ''\<rparr>]\<rparr>, rand0)"
  using Step_unhandled [of "Instruction0\<lparr>Op := ''MOVZ''\<rparr>"
      "CPU0\<lparr>prog := [Instruction0\<lparr>Op := ''MOVZ''\<rparr>]\<rparr>" rand0]
  by (simp add: unhandled_ops_def CPU0_def Instruction0_def Addr0_def)

text \<open>
  Claim C10 as stated fails: \<open>FADDS S1, S2, S3\<close> names single-precision registers (indices
  33 to 35), and \<open>Step\<close> on it panics instead of returning true.
\<close>

theorem Step_float_panics:
  "parsed ''FADDS S1, S2, S3'' = Inr (c10_float, None)
   \<and> Op c10_float \<in> set unhandled_ops
   \<and> unat (PC (CPU0\<lparr>prog := [c10_float]\<rparr>)) < length (prog (CPU0\<lparr>prog := [c10_float]\<rparr>))
   \<and> prog (CPU0\<lparr>prog := [c10_float]\<rparr>) ! unat (PC (CPU0\<lparr>prog := [c10_float]\<rparr>)) = c10_float
   \<and> Step (CPU0\<lparr>prog := [c10_float]\<rparr>) rand0 = Inl IndexOutOfRange
   \<and> Step (CPU0\<lparr>prog := [c10_float]\<rparr>) rand0 \<noteq> Inr (True, CPU0\<lparr>prog := [c10_float]\<rparr>, rand0)"
proof -
  have "parsed ''FADDS S1, S2, S3'' = Inr (c10_float, None)"
    by code_simp
  moreover have "Op c10_float \<in> set unhandled_ops
   \<and> unat (PC (CPU0\<lparr>prog := [c10_float]\<rparr>)) < length (prog (CPU0\<lparr>prog := [c10_float]\<rparr>))
   \<and> prog (CPU0\<lparr>prog := [c10_float]\<rparr>) ! unat (PC (CPU0\<lparr>prog := [c10_float]\<rparr>)) = c10_float
   \<and> Step (CPU0\<lparr>prog := [c10_float]\<rparr>) rand0 = Inl IndexOutOfRange
   \<and> Step (CPU0\<lparr>prog := [c10_float]\<rparr>) rand0 \<noteq> Inr (True, CPU0\<lparr>prog := [c10_float]\<rparr>, rand0)"
    by (simp add: cpu_defs c10_float_def unhandled_ops_def S0_def)
  ultimately show ?thesis by (rule conjI)
qed
section \<open>Branches\<close>

lemma arith_branch_op:
  assumes "op = ''B'' \<or> op = ''BL'' \<or> op = ''B.'' @ cond"
  shows "\<not> HasPrefix op ''ADD'' \<and> \<not> HasPrefix op ''SUB''
         \<and> \<not> HasPrefix op ''EOR'' \<and> \<not> HasPrefix op ''ORR'' \<and> \<not> HasPrefix op ''AND''
         \<and> op \<noteq> ''LSL'' \<and> op \<noteq> ''LSR'' \<and> op \<noteq> ''MUL''"
  using assms by (elim disjE) (simp_all add: HasPrefix_def)

lemma arith_not_branch_op:
  assumes "Op as = ''B'' \<or> Op as = ''BL'' \<or> Op as = ''B.'' @ cond"
    and "unat (AReg (From as)) < 32" and "unat (Reg as) < 32"
  shows "arith cpu as = Inr (False, cpu)"
  using arith_branch_op [OF assms(1)] assms(2,3)
  by (simp add: arith_def valuesFor_def reg_read_def)

text \<open>
  The label map that \<open>Load\<close> builds: a label reads as the index of the last line that
  carries it.
\<close>

lemma scan_labels_snoc:
  "scan_labels k (p @ [as]) ls =
     (if Label as \<noteq> [] then (scan_labels k p ls)(Label as \<mapsto> of_nat (k + length p))
      else scan_labels k p ls)"
  by (induction p arbitrary: k ls) auto

lemma scan_labels_last:
  assumes "i < length p" and "Label (p ! i) = l" and "l \<noteq> []"
    and "\<forall>j. i < j \<and> j < length p \<longrightarrow> Label (p ! j) \<noteq> l"
  shows "scan_labels k p ls l = Some (of_nat (k + i))"
  using assms
proof (induction p rule: rev_induct)
  case Nil
  then show ?case by simp
next
  case (snoc as p)
  show ?case
  proof (cases "i = length p")
    case True
    with snoc.prems show ?thesis by (simp add: scan_labels_snoc)
  next
    case False
    with snoc.prems(1) have i: "i < length p" by simp
    from snoc.prems(4) [rule_format, of "length p"] i
    have "Label ((p @ [as]) ! length p) \<noteq> l" by simp
    then have n: "Label as \<noteq> l" by simp
    have "scan_labels k p ls l = Some (of_nat (k + i))"
    proof (rule snoc.IH [OF i _ snoc.prems(3)])
      show "Label (p ! i) = l" using snoc.prems(2) i by (simp add: nth_append)
      show "\<forall>j. i < j \<and> j < length p \<longrightarrow> Label (p ! j) \<noteq> l"
        using snoc.prems(4) by (auto simp: nth_append split: if_splits)
    qed
    with n show ?thesis by (simp add: scan_labels_snoc)
  qed
qed

lemma Load_label_index:
  assumes "i < length p" and "Label (p ! i) = l" and "l \<noteq> []"
    and "\<forall>j. i < j \<and> j < length p \<longrightarrow> Label (p ! j) \<noteq> l"
  shows "map_index (labels (fst (snd (Load cpu g p)))) l = of_nat i"
  using scan_labels_last [OF assms, of 0 Map.empty]
  by (simp add: Load_def split_beta map_index_def)

text \<open>
  Claim C6. For a \<open>Step\<close> inside the program, on an instruction whose unused register fields
  are in range (as the B-format parser leaves them): after \<open>B label\<close> the PC is the index the
  label map gives for the label; after \<open>BL label\<close> LR holds the PC from before the branch and
  the PC is the target; after a \<open>B.cond\<close> whose condition \<open>shouldBranch\<close> finds false the PC
  has advanced by exactly 1. In each case \<open>Step\<close> returns without a panic.
\<close>

theorem branch_semantics:
  assumes "unat (PC cpu) < length (prog cpu)"
    and "prog cpu ! unat (PC cpu) = as"
    and "unat (AReg (From as)) < 32" and "unat (Reg as) < 32"
    and "length (Registers cpu) = 32"
  shows "(Op as = ''B'' \<and> ALabel (To as) \<noteq> [] \<longrightarrow>
            (\<exists>b cpu'. Step cpu g = Inr (b, cpu', g)
               \<and> PC cpu' = map_index (labels cpu) (ALabel (To as))))
       \<and> (Op as = ''BL'' \<and> ALabel (To as) \<noteq> [] \<longrightarrow>
            (\<exists>b cpu'. Step cpu g = Inr (b, cpu', g)
               \<and> Registers cpu' ! unat LR = PC cpu
               \<and> PC cpu' = map_index (labels cpu) (ALabel (To as))))
       \<and> (Op as = ''B.'' @ cond \<and> shouldBranch cpu cond = (False, None) \<longrightarrow>
            (\<exists>b cpu'. Step cpu g = Inr (b, cpu', g) \<and> PC cpu' = PC cpu + 1))"
proof (intro conjI impI)
  from assms(1) have ne: "length (prog cpu) \<noteq> 0" by auto
  {
    assume h: "Op as = ''B'' \<and> ALabel (To as) \<noteq> []"
    then have a: "arith cpu as = Inr (False, cpu)"
      using arith_not_branch_op [of as cond cpu] assms(3,4) by simp
    from h have "Step cpu g = Inr (in_prog (cpu\<lparr>PC := map_index (labels cpu) (ALabel (To as))\<rparr>),
         cpu\<lparr>PC := map_index (labels cpu) (ALabel (To as))\<rparr>, g)"
      unfolding Step_def using ne assms(1,2) a
      by (simp add: branch_def memory_def addr_def)
    then show "\<exists>b cpu'. Step cpu g = Inr (b, cpu', g)
               \<and> PC cpu' = map_index (labels cpu) (ALabel (To as))"
      by simp
  }
  {
    assume h: "Op as = ''BL'' \<and> ALabel (To as) \<noteq> []"
    then have a: "arith cpu as = Inr (False, cpu)"
      using arith_not_branch_op [of as cond cpu] assms(3,4) by simp
    let ?c = "cpu\<lparr>Registers := (Registers cpu)[unat LR := PC cpu],
                  PC := map_index (labels cpu) (ALabel (To as))\<rparr>"
    from h have "Step cpu g = Inr (in_prog ?c, ?c, g)"
      unfolding Step_def using ne assms(1,2) a
      by (simp add: branch_def reg_write_def addr_def LR_def X30_def)
    moreover have "Registers ?c ! unat LR = PC cpu"
      using assms(5) by (simp add: LR_def X30_def)
    ultimately show "\<exists>b cpu'. Step cpu g = Inr (b, cpu', g)
               \<and> Registers cpu' ! unat LR = PC cpu
               \<and> PC cpu' = map_index (labels cpu) (ALabel (To as))"
      by simp
  }
  {
    assume h: "Op as = ''B.'' @ cond \<and> shouldBranch cpu cond = (False, None)"
    then have a: "arith cpu as = Inr (False, cpu)"
      using arith_not_branch_op [of as cond cpu] assms(3,4) by simp
    from h have "Step cpu g = Inr (in_prog (cpu\<lparr>PC := PC cpu + 1\<rparr>), cpu\<lparr>PC := PC cpu + 1\<rparr>, g)"
      unfolding Step_def using ne assms(1,2) a
      by (simp add: branch_def HasPrefix_def)
    then show "\<exists>b cpu'. Step cpu g = Inr (b, cpu', g) \<and> PC cpu' = PC cpu + 1"
      by simp
  }
qed

theorem branch_semantics_witness:
  "(\<exists>b cpu'. Step (c6_cpu 1) rand0 = Inr (b, cpu', rand0) \<and> PC cpu' = 3)
   \<and> (\<exists>b cpu'. Step (c6_cpu 0) rand0 = Inr (b, cpu', rand0)
         \<and> Registers cpu' ! unat LR = 0 \<and> PC cpu' = 2)
   \<and> (\<exists>b cpu'. Step (c6_cpu 2) rand0 = Inr (b, cpu', rand0) \<and> PC cpu' = 2 + 1)"
proof -
  have l: "map_index (scan_labels 0 c6_prog Map.empty) ''end'' = 3"
          "map_index (scan_labels 0 c6_prog Map.empty) ''func'' = 2"
    by (simp_all add: c6_prog_def map_index_def Instruction0_def)
  have 1: "\<exists>b cpu'. Step (c6_cpu 1) rand0 = Inr (b, cpu', rand0) \<and> PC cpu' = 3"
    using branch_semantics [of "c6_cpu 1" "c6_prog ! 1" rand0 "''EQ''"] l
    by (simp add: c6_cpu_simps) (simp add: c6_prog_def Instruction0_def Addr0_def)
  have 2: "\<exists>b cpu'. Step (c6_cpu 0) rand0 = Inr (b, cpu', rand0)
         \<and> Registers cpu' ! unat LR = 0 \<and> PC cpu' = 2"
    using branch_semantics [of "c6_cpu 0" "c6_prog ! 0" rand0 "''EQ''"] l
    by (simp add: c6_cpu_simps) (simp add: c6_prog_def Instruction0_def Addr0_def)
  have 3: "\<exists>b cpu'. Step (c6_cpu 2) rand0 = Inr (b, cpu', rand0) \<and> PC cpu' = 2 + 1"
    using branch_semantics [of "c6_cpu 2" "c6_prog ! 2" rand0 "''EQ''"]
    by (simp add: c6_cpu_simps shouldBranch_def flagZ_def)
       (simp add: c6_prog_def Instruction0_def Addr0_def)
  from 1 2 3 show ?thesis by blast
qed

section \<open>Flags\<close>

text \<open>
  Claim C1 fails on the code. \<open>ADDS X3, X1, X2\<close> with \<open>X1 = X2 = 0\<close> and clear flags gives
  the result 0 and sets Z, N and C together (N with bit 63 clear, C with no carry); with
  \<open>X1 = 2^63\<close>, \<open>X2 = 0\<close> and N set before, the result has bit 63 set and all flags are
  cleared; with \<open>X1 = 2^64 - 1\<close>, \<open>X2 = 2\<close> and N, Z set before, the result is 1 and N, Z stay
  set, so the flags depend on their prior value. V is never set.
\<close>

theorem ADDS_flags_wrong:
  "result_and_flags (Step (c1_cpu 0 0 0) rand0) = Some (0, (flagZ OR flagN) OR flagC)
   \<and> result_and_flags (Step (c1_cpu (2 ^ 63) 0 flagN) rand0) = Some (2 ^ 63, 0)
   \<and> result_and_flags (Step (c1_cpu (- 1) 2 (flagN OR flagZ)) rand0) = Some (1, (flagN OR flagZ) OR flagC)"
  by (simp add: result_and_flags_def c1_cpu_def c1_prog_def cpu_defs)

section \<open>Conditions\<close>

lemma mask_2_not_1: "(x :: 8 word) AND 2 \<noteq> 1"
proof
  assume "x AND 2 = 1"
  then have "bit (x AND 2) 0 = bit (1 :: 8 word) 0" by simp
  then show False by (simp add: bit_simps)
qed

lemma mask_8_not_1: "(x :: 8 word) AND 8 \<noteq> 1"
proof
  assume "x AND 8 = 1"
  then have "bit (x AND 8) 0 = bit (1 :: 8 word) 0" by simp
  then show False by (simp add: bit_simps)
qed

text \<open>
  Claim C2 fails on the code. \<open>shouldBranch\<close> compares a masked flag with the literal 1, and
  only the mask of N is 1: \<open>EQ\<close>, \<open>HS\<close> and \<open>HI\<close> are false and \<open>LS\<close> is true in every
  flag state (so \<open>EQ\<close> is false with Z set); with N and V both set \<open>LT\<close> is true and \<open>GE\<close>
  false, since the masks 1 and 4 differ.
\<close>

theorem shouldBranch_compares_mask_to_1:
  "shouldBranch cpu ''EQ'' = (False, None)
   \<and> shouldBranch cpu ''HS'' = (False, None)
   \<and> shouldBranch cpu ''HI'' = (False, None)
   \<and> shouldBranch cpu ''LS'' = (True, None)
   \<and> Flags (CPU0\<lparr>Flags := flagZ\<rparr>) AND flagZ = flagZ
   \<and> shouldBranch (CPU0\<lparr>Flags := flagN OR flagV\<rparr>) ''LT'' = (True, None)
   \<and> shouldBranch (CPU0\<lparr>Flags := flagN OR flagV\<rparr>) ''GE'' = (False, None)"
  by (simp add: shouldBranch_def flagZ_def flagC_def flagN_def flagV_def mask_2_not_1 mask_8_not_1 CPU0_def)

section \<open>Memory: read after write\<close>

lemma BlockSize_1024: "BlockSize = 1024"
  by (simp add: BlockSize_def)

lemma unat_BlockSize: "unat (of_nat BlockSize :: 64 word) = 1024"
  by (simp add: BlockSize_1024)

lemma no_wrap:
  fixes x j :: nat
  assumes "x mod 1024 + j < 1024" and "x < 2 ^ 64"
  shows "x + j < 2 ^ 64"
proof -
  define q where "q = x div 1024"
  define r where "r = x mod 1024"
  have x: "x = 1024 * q + r" by (simp add: q_def r_def)
  have "q < 2 ^ 54"
    using assms(2) by (simp add: q_def less_mult_imp_div_less)
  then have "q + 1 \<le> 2 ^ 54" by simp
  then have "1024 * (q + 1) \<le> 1024 * (2 ^ 54 :: nat)"
    by (rule mult_le_mono2)
  moreover have "r + j < 1024" using assms(1) by (simp add: r_def)
  then have "x + j < 1024 * (q + 1)"
    using x by simp
  ultimately show ?thesis by simp
qed

lemma div_mod_small:
  fixes x j :: nat
  assumes "x mod 1024 + j < 1024"
  shows "(x + j) div 1024 = x div 1024" and "(x + j) mod 1024 = x mod 1024 + j"
proof -
  define q where "q = x div 1024"
  define r where "r = x mod 1024"
  have x: "x + j = q * 1024 + (r + j)" by (simp add: q_def r_def)
  have rj: "r + j < 1024" using assms by (simp add: r_def)
  show "(x + j) div 1024 = x div 1024"
    unfolding x using rj by (simp add: q_def)
  show "(x + j) mod 1024 = x mod 1024 + j"
    unfolding x using rj by (simp add: r_def)
qed


lemma unat_add_small:
  fixes A :: "64 word"
  assumes "unat (A mod of_nat BlockSize) + j < BlockSize"
  shows "unat (A + of_nat j) = unat A + j"
proof -
  have j: "j < 1024" using assms by (simp add: BlockSize_1024)
  then have uj: "unat (of_nat j :: 64 word) = j"
    by (simp add: unat_of_nat)
  have "unat A mod 1024 + j < 1024"
    using assms by (simp add: unat_mod BlockSize_1024)
  moreover have "unat A < 2 ^ 64" using unsigned_less [of A] by simp
  ultimately have "unat A + j < 2 ^ 64"
    by (rule no_wrap)
  then have "unat A + unat (of_nat j :: 64 word) < 2 ^ LENGTH(64)"
    by (simp add: uj)
  then have "unat (A + of_nat j) = unat A + unat (of_nat j :: 64 word)"
    by (simp only: unat_add_lem)
  then show ?thesis by (simp add: uj)
qed

lemma same_block:
  fixes A :: "64 word"
  assumes "unat (A mod of_nat BlockSize) + j < BlockSize"
  shows "(A + of_nat j) div of_nat BlockSize = A div of_nat BlockSize"
    and "unat ((A + of_nat j) mod of_nat BlockSize) = unat (A mod of_nat BlockSize) + j"
proof -
  have u: "unat (A + of_nat j) = unat A + j" using assms by (rule unat_add_small)
  have r: "unat A mod 1024 + j < 1024"
    using assms by (simp add: unat_mod BlockSize_1024)
  have "unat ((A + of_nat j) div of_nat BlockSize) = unat (A div of_nat BlockSize)"
    by (simp add: unat_div BlockSize_1024 u div_mod_small(1) [OF r])
  then show "(A + of_nat j) div of_nat BlockSize = A div of_nat BlockSize"
    by (simp add: word_unat_eq_iff)
  show "unat ((A + of_nat j) mod of_nat BlockSize) = unat (A mod of_nat BlockSize) + j"
    by (simp add: unat_mod BlockSize_1024 u div_mod_small(2) [OF r])
qed

lemma address_in_block:
  fixes x A :: "64 word"
  assumes "x div of_nat BlockSize = A div of_nat BlockSize"
    and "unat (x mod of_nat BlockSize) = unat (A mod of_nat BlockSize) + j"
  shows "x = A + of_nat j"
proof -
  have "x mod of_nat BlockSize = of_nat (unat (x mod of_nat BlockSize))" by simp
  also have "\<dots> = A mod of_nat BlockSize + of_nat j"
    by (simp add: assms(2))
  finally have m: "x mod of_nat BlockSize = A mod of_nat BlockSize + of_nat j" .
  have "x = x div of_nat BlockSize * of_nat BlockSize + x mod of_nat BlockSize"
    by (simp only: div_mult_mod_eq)
  also have "\<dots> = A div of_nat BlockSize * of_nat BlockSize + (A mod of_nat BlockSize + of_nat j)"
    by (simp only: assms(1) m)
  also have "\<dots> = (A div of_nat BlockSize * of_nat BlockSize + A mod of_nat BlockSize) + of_nat j"
    by (simp only: add.assoc)
  also have "\<dots> = A + of_nat j"
    by (simp only: div_mult_mod_eq)
  finally show ?thesis .
qed

lemma addresses_distinct:
  fixes a :: "64 word"
  assumes "a + of_nat i = a + of_nat j" and "i < 2 ^ 64" and "j < 2 ^ 64"
  shows "i = j"
proof -
  from assms(1) have "(of_nat i :: 64 word) = of_nat j" by simp
  then have "unat (of_nat i :: 64 word) = unat (of_nat j :: 64 word)" by simp
  with assms(2,3) show ?thesis by (simp add: unat_of_nat)
qed


lemma getOrMakeBlock_spec:
  assumes "wf_Memory m" and "getOrMakeBlock m g A = ((k, bk), m1, g1)"
  shows "k = A div of_nat BlockSize" and "length (data bk) = BlockSize" and "wf_Memory m1"
    and "blocks m1 k = Some bk"
    and "\<And>k'. k' \<noteq> k \<Longrightarrow> blocks m1 k' = blocks m k'"
    and "blocks m k \<noteq> None \<Longrightarrow> m1 = m \<and> g1 = g"
  using assms
  by (auto simp: getOrMakeBlock_def Let_def rand_Read_def wf_Memory_def
      split: option.splits if_splits)

lemma chunk_length:
  assumes "n < length b" and "ofs < BlockSize"
  shows "min ((if BlockSize < ofs + length b - n then BlockSize else ofs + length b - n) - ofs)
             (length (drop n b)) = min (BlockSize - ofs) (length b - n)"
  using assms by (auto simp: min_def)

lemma splice_nth:
  assumes "ofs + c \<le> length d" and "length s = c"
  shows "i < ofs \<Longrightarrow> (take ofs d @ s @ drop (ofs + c) d) ! i = d ! i"
    and "ofs + c \<le> i \<Longrightarrow> i < length d \<Longrightarrow> (take ofs d @ s @ drop (ofs + c) d) ! i = d ! i"
    and "j < c \<Longrightarrow> (take ofs d @ s @ drop (ofs + c) d) ! (ofs + j) = s ! j"
    and "length (take ofs d @ s @ drop (ofs + c) d) = length d"
proof -
  have l: "length (take ofs d) = ofs" using assms(1) by simp
  show "(take ofs d @ s @ drop (ofs + c) d) ! i = d ! i" if "i < ofs"
    using that l by (simp add: nth_append)
  show "(take ofs d @ s @ drop (ofs + c) d) ! i = d ! i" if "ofs + c \<le> i" and "i < length d"
  proof -
    have 1: "\<not> i < ofs" and 2: "\<not> i - ofs < c" using that by linarith+
    have "(take ofs d @ s @ drop (ofs + c) d) ! i = (s @ drop (ofs + c) d) ! (i - ofs)"
      using 1 l by (simp add: nth_append)
    also have "\<dots> = drop (ofs + c) d ! (i - ofs - c)"
      using 2 assms(2) by (simp add: nth_append)
    also have "\<dots> = d ! (ofs + c + (i - ofs - c))"
      using that assms(1) by simp
    also have "ofs + c + (i - ofs - c) = i" using that by simp
    finally show ?thesis .
  qed
  show "(take ofs d @ s @ drop (ofs + c) d) ! (ofs + j) = s ! j" if "j < c"
    using that l assms(2) by (simp add: nth_append)
  show "length (take ofs d @ s @ drop (ofs + c) d) = length d"
    using assms by simp
qed


lemma Write_iter_unfold:
  assumes G: "getOrMakeBlock m g (a + of_nat n) = ((k, bk), m1, g1)" and n: "n < length b"
  shows "Write_iter m g b a n =
     (min (BlockSize - unat ((a + of_nat n) mod of_nat BlockSize)) (length b - n),
      m1\<lparr>blocks := (blocks m1)(k \<mapsto>
        bk\<lparr>data := take (unat ((a + of_nat n) mod of_nat BlockSize)) (data bk)
          @ take (min (BlockSize - unat ((a + of_nat n) mod of_nat BlockSize)) (length b - n)) (drop n b)
          @ drop (unat ((a + of_nat n) mod of_nat BlockSize)
                  + min (BlockSize - unat ((a + of_nat n) mod of_nat BlockSize)) (length b - n))
              (data bk)\<rparr>)\<rparr>,
      g1)"
  unfolding Write_iter_def Let_def G prod.case
    chunk_length [OF n unat_mod_BlockSize [of "a + of_nat n"]]
  by (rule refl)

lemma Write_iter_spec:
  assumes wf: "wf_Memory m" and n: "n < length b" and W: "Write_iter m g b a n = (c, m', g')"
  shows "0 < c" and "n + c \<le> length b" and "wf_Memory m'"
    and "\<And>j. j < c \<Longrightarrow> peek m' (a + of_nat (n + j)) = Some (b ! (n + j))"
    and "\<And>x v. peek m x = Some v \<Longrightarrow> (\<And>j. j < c \<Longrightarrow> x \<noteq> a + of_nat (n + j))
           \<Longrightarrow> peek m' x = Some v"
proof -
  define A where "A = a + of_nat n"
  define ofs where "ofs = unat (A mod of_nat BlockSize)"
  obtain k bk m1 g1 where G: "getOrMakeBlock m g A = ((k, bk), m1, g1)"
    by (metis prod.exhaust)
  note gs = getOrMakeBlock_spec [OF wf G]
  define d where "d = data bk"
  define c0 where "c0 = min (BlockSize - ofs) (length b - n)"
  define d' where "d' = take ofs d @ take c0 (drop n b) @ drop (ofs + c0) d"
  have ofs: "ofs < BlockSize" unfolding ofs_def by (rule unat_mod_BlockSize)
  have "Write_iter m g b a n = (c0, m1\<lparr>blocks := (blocks m1)(k \<mapsto> bk\<lparr>data := d'\<rparr>)\<rparr>, g1)"
    unfolding Write_iter_unfold [OF G [unfolded A_def] n] c0_def d'_def d_def ofs_def A_def
    by (rule refl)
  with W have cc: "c = c0" and m': "m' = m1\<lparr>blocks := (blocks m1)(k \<mapsto> bk\<lparr>data := d'\<rparr>)\<rparr>"
    by simp_all
  have c: "c = min (BlockSize - ofs) (length b - n)" by (simp add: cc c0_def)
  have d'c: "d' = take ofs d @ take c (drop n b) @ drop (ofs + c) d" by (simp add: d'_def cc)
  from c ofs n show "0 < c" and "n + c \<le> length b" by simp_all
  have ld: "length d = BlockSize" unfolding d_def by (rule gs(2))
  have oc: "ofs + c \<le> BlockSize" using c ofs by simp
  have cb: "c \<le> length b - n" using c by simp
  have ls: "length (take c (drop n b)) = c" using cb by simp
  have oc': "ofs + c \<le> length d" using oc ld by simp
  note sp = splice_nth [OF oc' ls]
  have ld': "length d' = BlockSize"
    unfolding d'c using sp(4) ld by simp
  show "wf_Memory m'"
    using gs(3) ld' unfolding wf_Memory_def m' by auto
  have bm': "blocks m' k = Some (bk\<lparr>data := d'\<rparr>)" by (simp add: m')
  show "peek m' (a + of_nat (n + j)) = Some (b ! (n + j))" if j: "j < c" for j
  proof -
    have oj: "unat (A mod of_nat BlockSize) + j < BlockSize"
      using j oc by (simp add: ofs_def)
    have x: "a + of_nat (n + j) = A + of_nat j" by (simp add: A_def)
    have "d' ! (ofs + j) = b ! (n + j)"
      unfolding d'c sp(3) [OF j] using cb j by simp
    then show ?thesis
      unfolding x peek_def same_block(1) [OF oj] same_block(2) [OF oj]
      using bm' gs(1) by (simp add: ofs_def)
  qed
  show "peek m' x = Some v"
    if p: "peek m x = Some v" and nx: "\<And>j. j < c \<Longrightarrow> x \<noteq> a + of_nat (n + j)" for x v
  proof (cases "x div of_nat BlockSize = k")
    case False
    then have "blocks m' (x div of_nat BlockSize) = blocks m (x div of_nat BlockSize)"
      using gs(5) by (simp add: m')
    with p show ?thesis by (simp add: peek_def)
  next
    case True
    from p True have ex: "blocks m k \<noteq> None"
      by (auto simp: peek_def split: option.splits)
    with gs(6) have "m1 = m" by simp
    with gs(4) have bk: "blocks m k = Some bk" by simp
    define ox where "ox = unat (x mod of_nat BlockSize)"
    have ox: "ox < BlockSize" unfolding ox_def by (rule unat_mod_BlockSize)
    from p True bk have v: "v = d ! ox"
      by (simp add: peek_def ox_def d_def)
    have out: "ox < ofs \<or> ofs + c \<le> ox"
    proof (rule ccontr)
      assume "\<not> (ox < ofs \<or> ofs + c \<le> ox)"
      then have 1: "ox = ofs + (ox - ofs)" and 2: "ox - ofs < c" by linarith+
      from True gs(1) have "x div of_nat BlockSize = A div of_nat BlockSize" by simp
      moreover from 1 have "unat (x mod of_nat BlockSize) = unat (A mod of_nat BlockSize) + (ox - ofs)"
        by (simp add: ox_def ofs_def)
      ultimately have "x = A + of_nat (ox - ofs)" by (rule address_in_block)
      then have "x = a + of_nat (n + (ox - ofs))" by (simp add: A_def)
      with nx [OF 2] show False by simp
    qed
    have "d' ! ox = d ! ox"
      using out
    proof
      assume "ox < ofs"
      then show ?thesis unfolding d'c by (rule sp(1))
    next
      assume "ofs + c \<le> ox"
      moreover have "ox < length d" using ox ld by simp
      ultimately show ?thesis unfolding d'c by (rule sp(2))
    qed
    with v bm' True show ?thesis by (simp add: peek_def ox_def)
  qed
qed


lemma Write_loop_spec:
  assumes "wf_Memory m" and "n \<le> length b" and "length b \<le> 2 ^ 64"
    and "Write_loop m g b a n = (n', m', g')"
  shows "n' = length b \<and> wf_Memory m'
         \<and> (\<forall>i. n \<le> i \<and> i < length b \<longrightarrow> peek m' (a + of_nat i) = Some (b ! i))
         \<and> (\<forall>x v. peek m x = Some v \<and> (\<forall>i. n \<le> i \<and> i < length b \<longrightarrow> x \<noteq> a + of_nat i)
               \<longrightarrow> peek m' x = Some v)"
  using assms
proof (induction m g b a n arbitrary: n' m' g' rule: Write_loop.induct)
  case (1 m g b a n)
  show ?case
  proof (cases "n < length b")
    case False
    with "1.prems"(2) have "n = length b" by simp
    moreover from False "1.prems"(4) have "n' = n" and "m' = m" by simp_all
    ultimately show ?thesis using "1.prems"(1) by auto
  next
    case True
    obtain c m1 g1 where W: "Write_iter m g b a n = (c, m1, g1)"
      by (metis prod.exhaust)
    note ws = Write_iter_spec [OF "1.prems"(1) True W]
    from "1.prems"(4) True W have L: "Write_loop m1 g1 b a (n + c) = (n', m', g')"
      by simp
    have IH: "n' = length b \<and> wf_Memory m'
         \<and> (\<forall>i. n + c \<le> i \<and> i < length b \<longrightarrow> peek m' (a + of_nat i) = Some (b ! i))
         \<and> (\<forall>x v. peek m1 x = Some v \<and> (\<forall>i. n + c \<le> i \<and> i < length b \<longrightarrow> x \<noteq> a + of_nat i)
               \<longrightarrow> peek m' x = Some v)"
      by (rule "1.IH" [OF True W [symmetric] refl ws(3) ws(2) "1.prems"(3) L])
    have written: "peek m' (a + of_nat i) = Some (b ! i)" if i: "n \<le> i" "i < length b" for i
    proof (cases "i < n + c")
      case False
      with IH i show ?thesis by simp
    next
      case lt: True
      then have "i - n < c" using i by simp
      from ws(4) [OF this] i have p1: "peek m1 (a + of_nat i) = Some (b ! i)" by simp
      have "a + of_nat i \<noteq> a + of_nat i'" if i': "n + c \<le> i'" "i' < length b" for i'
      proof
        assume "a + of_nat i = a + of_nat i'"
        moreover have "i < 2 ^ 64" and "i' < 2 ^ 64" using i i' "1.prems"(3) by simp_all
        ultimately have "i = i'" by (rule addresses_distinct)
        with lt i' show False by simp
      qed
      with IH p1 show ?thesis by blast
    qed
    have frame: "peek m' x = Some v"
      if p: "peek m x = Some v" and nx: "\<forall>i. n \<le> i \<and> i < length b \<longrightarrow> x \<noteq> a + of_nat i" for x v
    proof -
      have "x \<noteq> a + of_nat (n + j)" if "j < c" for j
      proof -
        have "n \<le> n + j" and "n + j < length b" using that ws(2) by simp_all
        with nx show ?thesis by blast
      qed
      with ws(5) [OF p] have "peek m1 x = Some v" by blast
      moreover have "\<forall>i. n + c \<le> i \<and> i < length b \<longrightarrow> x \<noteq> a + of_nat i"
        using nx by simp
      ultimately show ?thesis using IH by blast
    qed
    from IH written frame show ?thesis by blast
  qed
qed

lemma chunk_length':
  assumes "n < length b" and "ofs < BlockSize"
  shows "min (length (drop n b))
             ((if BlockSize < ofs + length b - n then BlockSize else ofs + length b - n) - ofs)
         = min (BlockSize - ofs) (length b - n)"
  using assms by (auto simp: min_def)

lemma Read_iter_unfold:
  assumes G: "getOrMakeBlock m g (a + of_nat n) = ((k, bk), m1, g1)" and n: "n < length b"
  shows "Read_iter m g b a n =
     (min (BlockSize - unat ((a + of_nat n) mod of_nat BlockSize)) (length b - n),
      take n b
        @ take (min (BlockSize - unat ((a + of_nat n) mod of_nat BlockSize)) (length b - n))
            (drop (unat ((a + of_nat n) mod of_nat BlockSize)) (data bk))
        @ drop (n + min (BlockSize - unat ((a + of_nat n) mod of_nat BlockSize)) (length b - n)) b,
      m1, g1)"
  unfolding Read_iter_def Let_def G prod.case
    chunk_length' [OF n unat_mod_BlockSize [of "a + of_nat n"]]
  by (rule refl)

lemma Read_iter_spec:
  assumes wf: "wf_Memory m" and n: "n < length b" and len: "length B = length b"
    and pk: "\<And>i. n \<le> i \<Longrightarrow> i < length b \<Longrightarrow> peek m (a + of_nat i) = Some (B ! i)"
  shows "\<exists>c. Read_iter m g b a n = (c, take n b @ take c (drop n B) @ drop (n + c) b, m, g)
             \<and> 0 < c \<and> n + c \<le> length b"
proof -
  define A where "A = a + of_nat n"
  define ofs where "ofs = unat (A mod of_nat BlockSize)"
  define k where "k = A div of_nat BlockSize"
  define c where "c = min (BlockSize - ofs) (length b - n)"
  have ofs: "ofs < BlockSize" unfolding ofs_def by (rule unat_mod_BlockSize)
  from pk [of n] n have "peek m A = Some (B ! n)" by (simp add: A_def)
  then obtain bk where bk: "blocks m k = Some bk"
    by (auto simp: peek_def k_def split: option.splits)
  with wf have ld: "length (data bk) = BlockSize" by (simp add: wf_Memory_def)
  from bk have G: "getOrMakeBlock m g A = ((k, bk), m, g)"
    by (simp add: getOrMakeBlock_def k_def)
  have R: "Read_iter m g b a n = (c, take n b @ take c (drop ofs (data bk)) @ drop (n + c) b, m, g)"
    unfolding Read_iter_unfold [OF G [unfolded A_def] n] c_def ofs_def A_def
    by (rule refl)
  have c: "0 < c" "n + c \<le> length b" "ofs + c \<le> BlockSize"
    using ofs n by (simp_all add: c_def)
  have "take c (drop ofs (data bk)) = take c (drop n B)"
  proof (rule nth_equalityI)
    show "length (take c (drop ofs (data bk))) = length (take c (drop n B))"
      using c ld len by simp
  next
    fix j assume "j < length (take c (drop ofs (data bk)))"
    then have j: "j < c" by simp
    have oj: "unat (A mod of_nat BlockSize) + j < BlockSize"
      using j c by (simp add: ofs_def)
    have "A + of_nat j = a + of_nat (n + j)" by (simp add: A_def)
    moreover have "peek m (a + of_nat (n + j)) = Some (B ! (n + j))"
      using j c by (intro pk) simp_all
    ultimately have "peek m (A + of_nat j) = Some (B ! (n + j))"
      by (simp only:)
    then have "data bk ! (ofs + j) = B ! (n + j)"
      unfolding peek_def same_block(1) [OF oj] same_block(2) [OF oj]
      using bk by (simp add: k_def ofs_def)
    then show "take c (drop ofs (data bk)) ! j = take c (drop n B) ! j"
      using j c ld len by simp
  qed
  with R c show ?thesis by auto
qed

lemma Read_loop_spec:
  assumes "wf_Memory m" and "n \<le> length b" and "length B = length b"
    and "\<And>i. n \<le> i \<Longrightarrow> i < length b \<Longrightarrow> peek m (a + of_nat i) = Some (B ! i)"
  shows "Read_loop m g b a n = (length b, take n b @ drop n B, m, g)"
  using assms
proof (induction m g b a n rule: Read_loop.induct)
  case (1 m g b a n)
  show ?case
  proof (cases "n < length b")
    case False
    with "1.prems"(2,3) show ?thesis by simp
  next
    case True
    from Read_iter_spec [OF "1.prems"(1) True "1.prems"(3,4)]
    obtain c where R: "Read_iter m g b a n = (c, take n b @ take c (drop n B) @ drop (n + c) b, m, g)"
      and c: "0 < c" "n + c \<le> length b"
      by blast
    define b1 where "b1 = take n b @ take c (drop n B) @ drop (n + c) b"
    have lb1: "length b1 = length b"
      using c "1.prems"(3) by (simp add: b1_def)
    have pk1: "peek m (a + of_nat i) = Some (B ! i)" if "n + c \<le> i" "i < length b1" for i
      using "1.prems"(4) [of i] that lb1 by simp
    have IH: "Read_loop m g b1 a (n + c) = (length b1, take (n + c) b1 @ drop (n + c) B, m, g)"
      using "1.IH" [OF True R [symmetric, folded b1_def] refl refl "1.prems"(1)] c lb1 "1.prems"(3) pk1
      by simp
    have t: "take (n + c) b1 = take n b @ take c (drop n B)"
      using c "1.prems"(3) by (simp add: b1_def)
    have "take c (drop n B) @ drop (n + c) B = drop n B"
      by (metis add.commute append_take_drop_id drop_drop)
    with t have "take (n + c) b1 @ drop (n + c) B = take n b @ drop n B" by simp
    with IH lb1 have "Read_loop m g b1 a (n + c) = (length b, take n b @ drop n B, m, g)"
      by simp
    with True R show ?thesis by (simp add: b1_def)
  qed
qed

text \<open>
  Claim C4. For every byte sequence \<open>B\<close> (a Go slice: fewer than \<open>2^63\<close> bytes), every 64-bit
  address \<open>A\<close>, every memory whose blocks are \<open>BlockSize\<close> bytes long and every state of the
  random source: \<open>Write(B, A)\<close> returns \<open>n = len(B)\<close> and a nil error, and a following \<open>Read\<close>
  into a buffer of \<open>len(B)\<close> bytes at \<open>A\<close> returns \<open>n = len(B)\<close>, a nil error and exactly
  \<open>B\<close> in the buffer, however many block boundaries the range crosses and also when
  \<open>A + len(B)\<close> wraps around the address space.
\<close>

theorem Write_then_Read:
  assumes "wf_Memory m" and "length B < 2 ^ 63" and "length buf = length B"
  shows "\<exists>m1 g1. Write m g B A = ((length B, None), m1, g1)
           \<and> Read m1 g1 buf A = ((length B, None), B, m1, g1)"
proof -
  obtain n1 m1 g1 where W: "Write_loop m g B A 0 = (n1, m1, g1)"
    by (metis prod.exhaust)
  have "length B \<le> 2 ^ 64" using assms(2) by simp
  from Write_loop_spec [OF assms(1) _ this W]
  have n1: "n1 = length B" and wf1: "wf_Memory m1"
    and pk: "\<And>i. i < length B \<Longrightarrow> peek m1 (A + of_nat i) = Some (B ! i)"
    by simp_all
  have "Read_loop m1 g1 buf A 0 = (length buf, take 0 buf @ drop 0 B, m1, g1)"
    by (rule Read_loop_spec [OF wf1 _ assms(3) [symmetric]]) (simp_all add: pk assms(3))
  then have "Read m1 g1 buf A = ((length B, None), B, m1, g1)"
    unfolding Read_def by (simp add: assms(3))
  moreover have "Write m g B A = ((length B, None), m1, g1)"
    unfolding Write_def W by (simp add: n1)
  ultimately show ?thesis by blast
qed

theorem Write_then_Read_witness:
  "wf_Memory \<lparr>blocks = Map.empty\<rparr> \<and> length c4_bytes < 2 ^ 63
   \<and> length (replicate 16 (0 :: 8 word)) = length c4_bytes
   \<and> (\<exists>m1 g1. Write \<lparr>blocks = Map.empty\<rparr> rand0 c4_bytes 1016 = ((16, None), m1, g1)
         \<and> Read m1 g1 (replicate 16 0) 1016 = ((16, None), c4_bytes, m1, g1))
   \<and> (\<exists>m1 g1. Write \<lparr>blocks = Map.empty\<rparr> rand0 c4_bytes (- 4) = ((16, None), m1, g1)
         \<and> Read m1 g1 (replicate 16 0) (- 4) = ((16, None), c4_bytes, m1, g1))"
proof -
  have w: "wf_Memory \<lparr>blocks = Map.empty\<rparr>" by (simp add: wf_Memory_def)
  have l: "length c4_bytes < 2 ^ 63" "length (replicate 16 (0 :: 8 word)) = length c4_bytes"
    "length c4_bytes = 16"
    by (simp_all add: c4_bytes_def)
  from Write_then_Read [OF w l(1,2), of rand0 1016] Write_then_Read [OF w l(1,2), of rand0 "- 4"]
    w l
  show ?thesis by simp
qed

section \<open>Compare and branch\<close>

text \<open>
  Claim C3 fails on the code. The CB-format parser stores the register of \<open>CBZ X1, skip\<close> in
  \<open>From.Reg\<close> and the label in \<open>To.Label\<close>, but \<open>branch\<close> tests \<open>Registers[To.Reg]\<close>, which is
  X0, and jumps to \<open>addr(From)\<close>, which is \<open>PC + 0\<close>. With \<open>X1 = 0\<close> and \<open>X0 = 1\<close> the step goes
  to \<open>PC + 1 = 1\<close>, not to the label's index 2; with \<open>X1 = 5\<close> and \<open>X0 = 0\<close> it stays at 0
  instead of advancing; \<open>CBNZ\<close> reads the same fields.
\<close>

theorem CBZ_reads_wrong_fields:
  "parse_all (Use Parser0 c3_text) [] = Some (Inr (Inr c3_prog))
   \<and> map_index (labels (c3_cpu c3_prog 1 0)) ''skip'' = 2
   \<and> PC_after (Step (c3_cpu c3_prog 1 0) rand0) = Some 1
   \<and> PC_after (Step (c3_cpu c3_prog 0 5) rand0) = Some 0
   \<and> parsed ''CBNZ X1, skip'' = Inr (Instruction0\<lparr>Op := ''CBNZ'', To := Addr0\<lparr>ALabel := ''skip''\<rparr>,
                                        From := Addr0\<lparr>AReg := 1\<rparr>\<rparr>, None)"
  by code_simp

section \<open>Shifts\<close>

text \<open>
  Claim C7 fails on the code. \<open>LSL X1, X2, #3\<close> is parsed in the I format, with the immediate in
  \<open>Imm\<close> and \<open>Reg\<close> left 0, but \<open>valuesFor\<close> takes the immediate only for an opcode ending in
  \<open>I\<close>: the shift amount is the value of X0. With \<open>X2 = 1\<close> the step leaves 1 in X1 when
  \<open>X0 = 0\<close> and 4 when \<open>X0 = 2\<close>, never 8; \<open>LSR\<close> of 16 leaves 16 when \<open>X0 = 0\<close>, not 2.
\<close>

theorem shift_ignores_immediate:
  "parsed ''LSL X1, X2, #3'' = Inr (c7_shift ''LSL'', None)
   \<and> parsed ''LSR X1, X2, #3'' = Inr (c7_shift ''LSR'', None)
   \<and> X1_after (Step (c7_cpu ''LSL'' 0 1) rand0) = Some 1
   \<and> X1_after (Step (c7_cpu ''LSL'' 2 1) rand0) = Some 4
   \<and> X1_after (Step (c7_cpu ''LSR'' 0 16) rand0) = Some 16"
  by code_simp

section \<open>A missing operand\<close>

text \<open>
  Claim C8 fails on the code. On \<open>ADDI X1, X2\<close> the I-format parser meets the end of input
  where it expects the second comma; \<open>expect\<close> returns \<open>io.EOF\<close> for it and the parser passes
  that error on as it is. \<open>Next\<close> returns the end-of-stream sentinel, and the driver's loop
  takes it for the end of the program: the text parses to the empty program. The message
  naming the immediate appears only when the comma is there (\<open>ADDI X1, X2,\<close>).
\<close>

theorem missing_operand_is_EOF:
  "parsed ''ADDI X1, X2'' =
     Inr (Instruction0\<lparr>Op := ''ADDI'', To := Addr0\<lparr>AReg := 1\<rparr>, From := Addr0\<lparr>AReg := 2\<rparr>\<rparr>, Some EOF)
   \<and> parse_all (Use Parser0 ''ADDI X1, X2'') [] = Some (Inr (Inr []))
   \<and> parsed ''ADDI X1, X2,'' =
     Inr (Instruction0\<lparr>Op := ''ADDI'', To := Addr0\<lparr>AReg := 1\<rparr>, From := Addr0\<lparr>AReg := 2\<rparr>\<rparr>,
          Some (Errorf ''immediate: not an integer: EOF''))"
  by code_simp

section \<open>Scenario S1\<close>

text \<open>
  Claim C5 fails on the code. \<open>Load\<close> seeds all 32 registers, XZR (index 31) among them, and
  nothing makes XZR read as 0. With every random byte 1, XZR is \<open>0x0101010101010101\<close>; the
  run of S1 ends with \<open>X3 = 2 * XZR + 12 = 0x020202020202020E\<close>, and \<open>STUR\<close> writes at the
  address XZR holds: the block of the addresses 0 to 7 is never allocated.
\<close>

theorem S1_with_random_XZR:
  "parse_all (Use Parser0 S1_text) [] = Some (Inr (Inr S1_prog))
   \<and> X3_and_memory (simulate S1_text rand1) = Some (0x020202020202020E, replicate 8 None)"
  by code_simp

end
